theory Spec2Isabelle
  imports Complex_Main
begin

section \<open>The waste classification predictor (backend/model/predict.py)\<close>

text \<open>
  A shallow embedding of the class \<open>WastePredictor\<close>. Everything the class obtains
  from outside itself is a field of an environment record: the file system
  (\<open>os.stat\<close>), the deep-learning framework (\<open>keras.models.load_model\<close>,
  \<open>model.predict\<close>), the image library (\<open>Image.open\<close>, \<open>Image.resize\<close>),
  the random source (\<open>np.random.randint\<close>, \<open>np.random.uniform\<close>), the import
  of TensorFlow and the console (\<open>print\<close>). Exceptions are values of the type
  \<open>exn\<close>. Floats are rational numbers: the model's outputs are float32 values and
  their product with \<open>100\<close> is rounded as numpy rounds it, while the pixel values
  divided by \<open>255.0\<close>, which only the model reads, are kept exact; NaN and the
  infinities are not represented.
\<close>

subsection \<open>Exceptions\<close>

text \<open>
  An instance of Python's \<open>Exception\<close> class, which is what \<open>except Exception\<close>
  catches. \<open>KeyError\<close> carries the missing key.
\<close>

datatype exn =
    KeyError int
  | IndexError
  | ValueError
  | OSError
  | UnidentifiedImageError
  | ImportError
  | ModuleNotFoundError
  | UnicodeEncodeError
  | OtherError string

text \<open>\<open>except ImportError\<close> also catches its subclass \<open>ModuleNotFoundError\<close>.\<close>

definition isinstance_ImportError :: "exn \<Rightarrow> bool" where
  "isinstance_ImportError e \<longleftrightarrow> e = ImportError \<or> e = ModuleNotFoundError"

subsection \<open>Console messages\<close>

text \<open>
  What the \<open>print\<close> calls of the module write, one constructor for each call:
  \<^item> line 28: \<open>"(warning sign) TensorFlow not available. Using demo mode."\<close>;
  \<^item> line 95: \<open>"(bar chart) Running in demo mode (no model loaded)"\<close>;
  \<^item> line 102: \<open>"(cross mark) Model file not found: {model_path}"\<close>;
  \<^item> line 110: \<open>"(cross mark) Model file is empty (0 bytes): {model_path}"\<close>;
  \<^item> line 111: \<open>"   Please ensure the model file was saved correctly."\<close>;
  \<^item> line 119: \<open>"(check mark) Model loaded successfully from {model_path} ({file_size:,} bytes)"\<close>;
  \<^item> line 121: \<open>"(cross mark) Error loading model: {e}"\<close>;
  \<^item> line 122: \<open>"   Model path: {model_path}"\<close>;
  \<^item> line 125: \<open>"   File exists, size: {file_size:,} bytes"\<close>.
  The signs in parentheses are emoji in the source.
\<close>

datatype message =
    TensorFlow_not_available
  | Running_in_demo_mode
  | Model_file_not_found string
  | Model_file_is_empty string
  | Please_ensure_saved
  | Model_loaded_successfully string nat
  | Error_loading_model exn
  | Model_path string
  | File_exists_size nat

subsection \<open>The category table\<close>

text \<open>
  One value of the dict \<open>WASTE_CATEGORIES\<close>. The fields are the keys \<open>'name'\<close>,
  \<open>'type'\<close>, \<open>'tip'\<close>, \<open>'co2'\<close>, \<open>'color'\<close> and \<open>'icon'\<close>; the icons are
  kept as their UTF-8 bytes.
\<close>

record category_info =
  cat_name :: string
  cat_type :: string
  cat_tip :: string
  cat_co2 :: rat
  cat_color :: string
  cat_icon :: string

text \<open>The dict literal, in the order it is written (lines 34 to 84).\<close>

definition WASTE_CATEGORIES_items :: "(int \<times> category_info) list" where
  "WASTE_CATEGORIES_items =
    [(0, \<lparr>cat_name = ''Glass'', cat_type = ''Recyclable'',
          cat_tip = ''Separate by color when possible. Remove caps and lids. Rinse before recycling.'',
          cat_co2 = 4 / 10, cat_color = ''#8B5CF6'',
          cat_icon = [CHR 0xF0, CHR 0x9F, CHR 0x8D, CHR 0xBE]\<rparr>),
     (1, \<lparr>cat_name = ''Metal'', cat_type = ''Recyclable'',
          cat_tip = ''Aluminum cans are infinitely recyclable! Rinse before recycling. Separate steel and aluminum if required.'',
          cat_co2 = 6 / 10, cat_color = ''#EF4444'',
          cat_icon = [CHR 0xF0, CHR 0x9F, CHR 0xA5, CHR 0xAB]\<rparr>),
     (2, \<lparr>cat_name = ''Organic Waste'', cat_type = ''Compostable'',
          cat_tip = ''Perfect for composting! Add to your compost bin or use municipal composting services.'',
          cat_co2 = 2 / 10, cat_color = ''#F59E0B'',
          cat_icon = [CHR 0xF0, CHR 0x9F, CHR 0x8D, CHR 0x82]\<rparr>),
     (3, \<lparr>cat_name = ''Paper'', cat_type = ''Recyclable'',
          cat_tip = ''Keep paper clean and dry. Remove plastic windows, tape, staples, and clips before recycling. Flatten boxes to save space. Avoid recycling greasy pizza boxes, waxed paper, or paper with food residue. Newspapers, magazines, office paper, and cardboard are all recyclable. Check local guidelines for specific requirements.'',
          cat_co2 = 3 / 10, cat_color = ''#10B981'',
          cat_icon = [CHR 0xF0, CHR 0x9F, CHR 0x93, CHR 0x84]\<rparr>),
     (4, \<lparr>cat_name = ''Plastic'', cat_type = ''Recyclable'',
          cat_tip = ''Rinse thoroughly and remove labels before recycling. Check local guidelines for plastic types accepted.'',
          cat_co2 = 5 / 10, cat_color = ''#3B82F6'',
          cat_icon = [CHR 0xE2, CHR 0x99, CHR 0xBB, CHR 0xEF, CHR 0xB8, CHR 0x8F]\<rparr>),
     (5, \<lparr>cat_name = ''Textiles'', cat_type = ''Recyclable'',
          cat_tip = ''Donate wearable clothes to charity. For damaged items, use textile recycling bins. Clean and dry items before donating. Remove zippers and buttons if possible. Natural fibers like cotton and wool are more easily recycled than synthetic blends.'',
          cat_co2 = 7 / 10, cat_color = ''#EC4899'',
          cat_icon = [CHR 0xF0, CHR 0x9F, CHR 0x91, CHR 0x95]\<rparr>)]"

definition WASTE_CATEGORIES :: "int \<rightharpoonup> category_info" where
  "WASTE_CATEGORIES = map_of WASTE_CATEGORIES_items"

text \<open>\<open>len(self.WASTE_CATEGORIES)\<close>: the keys of the literal are distinct.\<close>

definition len_WASTE_CATEGORIES :: int where
  "len_WASTE_CATEGORIES = int (length WASTE_CATEGORIES_items)"

text \<open>\<open>d[k]\<close> on a dict: a missing key raises \<open>KeyError\<close>, also a negative one.\<close>

definition dict_getitem :: "(int \<rightharpoonup> 'v) \<Rightarrow> int \<Rightarrow> exn + 'v" where
  "dict_getitem d k = (case d k of None \<Rightarrow> Inl (KeyError k) | Some v \<Rightarrow> Inr v)"

subsection \<open>Images and arrays\<close>

text \<open>
  A decoded PIL image: its mode string, its size, and its rows of pixels, a pixel being
  the list of its band values (one value in mode \<open>L\<close>, two in \<open>LA\<close>, three in
  \<open>RGB\<close>, four in \<open>RGBA\<close>).
\<close>

record image =
  mode :: string
  width :: nat
  height :: nat
  pixels :: "nat list list list"

text \<open>\<open>image.convert('RGB')\<close> on an \<open>RGBA\<close> image: the alpha band is dropped.\<close>

definition convert_RGB :: "image \<Rightarrow> image" where
  "convert_RGB im = im\<lparr>mode := ''RGB'', pixels := map (map (take 3)) (pixels im)\<rparr>"

text \<open>A numpy array of numbers, of any rank.\<close>

datatype ndarray = Num rat | Arr "ndarray list"

fun shape :: "ndarray \<Rightarrow> nat list" where
  "shape (Num v) = []"
| "shape (Arr []) = [0]"
| "shape (Arr (a # as)) = Suc (length as) # shape a"

fun elems :: "ndarray \<Rightarrow> rat list" where
  "elems (Num v) = [v]"
| "elems (Arr as) = concat (map elems as)"

text \<open>
  \<open>np.array(image)\<close>: rows, columns and, for an image of more than one band, bands.
\<close>

definition np_pixel :: "nat list \<Rightarrow> ndarray" where
  "np_pixel px = (case px of [v] \<Rightarrow> Num (of_nat v) | _ \<Rightarrow> Arr (map (\<lambda>v. Num (of_nat v)) px))"

definition np_array :: "image \<Rightarrow> ndarray" where
  "np_array im = Arr (map (\<lambda>row. Arr (map np_pixel row)) (pixels im))"

text \<open>\<open>a / 255.0\<close>, element by element; the quotients are kept exact.\<close>

fun np_divide :: "ndarray \<Rightarrow> rat \<Rightarrow> ndarray" where
  "np_divide (Num v) d = Num (v / d)"
| "np_divide (Arr as) d = Arr (map (\<lambda>a. np_divide a d) as)"

text \<open>\<open>np.expand_dims(a, axis=0)\<close>.\<close>

definition expand_dims0 :: "ndarray \<Rightarrow> ndarray" where
  "expand_dims0 a = Arr [a]"

text \<open>
  \<open>np.argmax\<close> of a vector: a scan from the left that replaces the maximum only by a
  strictly greater value; an empty vector raises \<open>ValueError\<close>.
\<close>

fun argmax_scan :: "rat list \<Rightarrow> nat \<Rightarrow> rat \<Rightarrow> nat \<Rightarrow> nat" where
  "argmax_scan [] i mp max_ind = max_ind"
| "argmax_scan (x # xs) i mp max_ind =
     (if mp < x then argmax_scan xs (Suc i) x i else argmax_scan xs (Suc i) mp max_ind)"

definition np_argmax :: "rat list \<Rightarrow> exn + nat" where
  "np_argmax ip = (case ip of [] \<Rightarrow> Inl ValueError | x # xs \<Rightarrow> Inr (argmax_scan xs 1 x 0))"

text \<open>\<open>xs[i]\<close> on a sequence, for an index that is not negative.\<close>

definition seq_getitem :: "'a list \<Rightarrow> nat \<Rightarrow> exn + 'a" where
  "seq_getitem xs i = (if i < length xs then Inr (xs ! i) else Inl IndexError)"

text \<open>
  Python's \<open>round(x, 1)\<close>: to the nearest tenth, a value exactly half way going to the
  even neighbour.
\<close>

definition round_half_even :: "rat \<Rightarrow> int" where
  "round_half_even y =
     (let f = \<lfloor>y\<rfloor>; d = y - of_int f
      in if d < 1 / 2 then f else if 1 / 2 < d then f + 1 else if even f then f else f + 1)"

definition py_round1 :: "rat \<Rightarrow> rat" where
  "py_round1 x = of_int (round_half_even (x * 10)) / 10"

text \<open>
  Rounding to a binary floating-point format, to the nearest value with ties to the
  even mantissa. The exponent of \<open>x\<close> is the \<open>e\<close> with \<open>2\<^sup>e \<le> |x| < 2\<^sup>e\<^sup>+\<^sup>1\<close>,
  searched upwards from the least exponent of the format (below which the values are
  subnormal) to its greatest. In float32 (binary32) the exponents are \<open>-126\<close> to
  \<open>127\<close> and the values of exponent \<open>e\<close> are the multiples of \<open>2\<^sup>e\<^sup>-\<^sup>2\<^sup>3\<close>; in
  float64 (binary64) they are \<open>-1022\<close> to \<open>1023\<close> and the multiples of \<open>2\<^sup>e\<^sup>-\<^sup>5\<^sup>2\<close>.
  Numbers beyond the greatest value of the format, which numpy rounds to an infinity,
  are beyond the values represented here.
\<close>

fun float_exponent_from :: "nat \<Rightarrow> int \<Rightarrow> rat \<Rightarrow> int" where
  "float_exponent_from 0 e x = e"
| "float_exponent_from (Suc k) e x =
     (if \<bar>x\<bar> < 2 powi (e + 1) then e else float_exponent_from k (e + 1) x)"

definition float32_exponent :: "rat \<Rightarrow> int" where
  "float32_exponent x = float_exponent_from 253 (- 126) x"

definition float32_round :: "rat \<Rightarrow> rat" where
  "float32_round x =
     (let q = 2 powi (float32_exponent x - 23)
      in of_int (round_half_even (x / q)) * q)"

definition is_float32 :: "rat \<Rightarrow> bool" where
  "is_float32 x \<longleftrightarrow> float32_round x = x \<and> \<bar>x\<bar> < 2 powi 128"

definition float64_exponent :: "rat \<Rightarrow> int" where
  "float64_exponent x = float_exponent_from 2045 (- 1022) x"

definition float64_round :: "rat \<Rightarrow> rat" where
  "float64_round x =
     (let q = 2 powi (float64_exponent x - 52)
      in of_int (round_half_even (x / q)) * q)"

text \<open>
  The product of two floats in float32 and in float64: the exact product, rounded.
\<close>

definition np_multiply32 :: "rat \<Rightarrow> rat \<Rightarrow> rat" where
  "np_multiply32 a b = float32_round (a * b)"

definition np_multiply64 :: "rat \<Rightarrow> rat \<Rightarrow> rat" where
  "np_multiply64 a b = float64_round (a * b)"

subsection \<open>The environment and the predictor's state\<close>

text \<open>
  \<open>'m\<close> is the type of model handles, \<open>'g\<close> that of the states of numpy's global
  random generator.
  \<^item> \<open>import_tensorflow\<close>: the exception that lines 20 to 23 raise, if any;
  \<^item> \<open>numpy_keeps_float32\<close>: how numpy types the product of a float32 scalar and a
    Python integer. NumPy 2 keeps float32 (the integer is converted to float32);
    NumPy 1 promotes both to float64;
  \<^item> \<open>py_print\<close>: the exception that \<open>print\<close> raises on a message, if any (a
    \<open>UnicodeEncodeError\<close> when the console cannot encode it);
  \<^item> \<open>os_stat\<close>: the size of the file at a path, or the \<open>OSError\<close> of \<open>os.stat\<close>,
    as the call made by the given line of the source finds it (the files may change
    between two calls);
  \<^item> \<open>keras_load_model\<close>: \<open>keras.models.load_model\<close>;
  \<^item> \<open>model_predict\<close>: \<open>model.predict(x, verbose=0)\<close>, a batch of rows of float32
    values;
  \<^item> \<open>Image_open\<close>: \<open>Image.open\<close> and the decoding of the pixels it defers;
  \<^item> \<open>Image_resize\<close>: \<open>image.resize((w, h))\<close> with the library's default filter;
  \<^item> \<open>randint\<close>, \<open>uniform\<close>: a draw and the generator's next state.
\<close>

record ('m, 'g) env =
  import_tensorflow :: "exn option"
  numpy_keeps_float32 :: bool
  py_print :: "message \<Rightarrow> exn option"
  os_stat :: "nat \<Rightarrow> string \<Rightarrow> exn + nat"
  keras_load_model :: "string \<Rightarrow> exn + 'm"
  model_predict :: "'m \<Rightarrow> ndarray \<Rightarrow> exn + rat list list"
  Image_open :: "string \<Rightarrow> exn + image"
  Image_resize :: "image \<Rightarrow> nat \<times> nat \<Rightarrow> image"
  randint :: "'g \<Rightarrow> int \<Rightarrow> int \<Rightarrow> int \<times> 'g"
  uniform :: "'g \<Rightarrow> rat \<Rightarrow> rat \<Rightarrow> rat \<times> 'g"

text \<open>
  \<open>os.path.exists\<close> and \<open>os.path.getsize\<close> are both \<open>os.stat\<close>; the first
  argument is the line of the call.
\<close>

definition os_path_exists :: "('m, 'g) env \<Rightarrow> nat \<Rightarrow> string \<Rightarrow> bool" where
  "os_path_exists E line path =
     (case os_stat E line path of Inl e \<Rightarrow> False | Inr n \<Rightarrow> True)"

definition os_path_getsize :: "('m, 'g) env \<Rightarrow> nat \<Rightarrow> string \<Rightarrow> exn + nat" where
  "os_path_getsize E line path = os_stat E line path"

text \<open>\<open>print(msg)\<close> followed by the rest of the block.\<close>

definition printing :: "('m, 'g) env \<Rightarrow> message \<Rightarrow> exn + 'a \<Rightarrow> exn + 'a" where
  "printing E msg rest = (case py_print E msg of Some e \<Rightarrow> Inl e | None \<Rightarrow> rest)"

text \<open>
  Lines 19 to 28, run when the module is imported: the value of \<open>TF_AVAILABLE\<close>, or
  the exception that ends the import.
\<close>

definition load_module :: "('m, 'g) env \<Rightarrow> exn + bool" where
  "load_module E =
     (case import_tensorflow E of
        None \<Rightarrow> Inr True
      | Some e \<Rightarrow>
          if isinstance_ImportError e
          then printing E TensorFlow_not_available (Inr False)
          else Inl e)"

text \<open>
  \<open>p * n\<close> for a float32 scalar \<open>p\<close> of a numpy array and a small Python integer
  \<open>n\<close> (here \<open>100\<close>, which both formats hold exactly).
\<close>

definition scalar_times_int :: "('m, 'g) env \<Rightarrow> rat \<Rightarrow> int \<Rightarrow> rat" where
  "scalar_times_int E p n =
     (if numpy_keeps_float32 E then np_multiply32 p (of_int n) else np_multiply64 p (of_int n))"

text \<open>The attributes of a \<open>WastePredictor\<close>.\<close>

record 'm predictor =
  model :: "'m option"
  model_loaded :: bool
  img_size :: nat

text \<open>What a call can change: the predictor and the random generator.\<close>

record ('m, 'g) world =
  self :: "'m predictor"
  rng :: 'g

subsection \<open>Initialisation\<close>

text \<open>The assignments \<open>self.model = None; self.model_loaded = False\<close>.\<close>

definition no_model :: "'m predictor \<Rightarrow> 'm predictor" where
  "no_model s = s\<lparr>model := None, model_loaded := False\<rparr>"

text \<open>The body of the \<open>try\<close> of \<open>_load_model\<close> (lines 100 to 119).\<close>

definition load_model_try :: "('m, 'g) env \<Rightarrow> 'm predictor \<Rightarrow> string \<Rightarrow> exn + 'm predictor" where
  "load_model_try E s model_path =
     (if \<not> os_path_exists E 101 model_path then
        printing E (Model_file_not_found model_path) (Inr (no_model s))
      else case os_path_getsize E 108 model_path of
        Inl e \<Rightarrow> Inl e
      | Inr file_size \<Rightarrow>
          if file_size = 0 then
            printing E (Model_file_is_empty model_path)
              (printing E Please_ensure_saved (Inr (no_model s)))
          else case keras_load_model E model_path of
            Inl e \<Rightarrow> Inl e
          | Inr m \<Rightarrow>
              printing E (Model_loaded_successfully model_path file_size)
                (Inr (s\<lparr>model := Some m, model_loaded := True\<rparr>)))"

text \<open>
  \<open>_load_model\<close>: the \<open>try\<close> and its handler (lines 120 to 127), which prints, asks
  for the file's size again, and only then resets the two attributes. An exception
  raised in the handler leaves \<open>_load_model\<close>.
\<close>

definition load_model :: "('m, 'g) env \<Rightarrow> 'm predictor \<Rightarrow> string \<Rightarrow> exn + 'm predictor" where
  "load_model E s model_path =
     (case load_model_try E s model_path of
        Inr s' \<Rightarrow> Inr s'
      | Inl e \<Rightarrow>
          printing E (Error_loading_model e)
            (printing E (Model_path model_path)
               (if os_path_exists E 123 model_path then
                  (case os_path_getsize E 124 model_path of
                     Inl e' \<Rightarrow> Inl e'
                   | Inr file_size \<Rightarrow>
                       printing E (File_exists_size file_size) (Inr (no_model s)))
                else Inr (no_model s))))"

text \<open>
  \<open>__init__\<close> (lines 86 to 95), given the value of \<open>TF_AVAILABLE\<close>. \<open>model_path\<close>
  is an \<open>Optional[str]\<close>; \<open>None\<close> and the empty string are false in the condition.
\<close>

definition init :: "('m, 'g) env \<Rightarrow> bool \<Rightarrow> string option \<Rightarrow> exn + 'm predictor" where
  "init E TF_AVAILABLE model_path =
     (let s = \<lparr>model = None, model_loaded = False, img_size = 224\<rparr>
      in case model_path of
           None \<Rightarrow> printing E Running_in_demo_mode (Inr s)
         | Some path \<Rightarrow>
             if path \<noteq> [] \<and> os_path_exists E 92 path \<and> TF_AVAILABLE
             then load_model E s path
             else printing E Running_in_demo_mode (Inr s))"

text \<open>
  The start of the service (app.py, lines 27 and 43): the module is imported, then the
  predictor is constructed.
\<close>

definition startup :: "('m, 'g) env \<Rightarrow> string option \<Rightarrow> exn + 'm predictor" where
  "startup E model_path =
     (case load_module E of
        Inl e \<Rightarrow> Inl e
      | Inr TF_AVAILABLE \<Rightarrow> init E TF_AVAILABLE model_path)"

subsection \<open>Preprocessing\<close>

text \<open>\<open>preprocess_image\<close> (lines 129 to 155).\<close>

definition preprocess_image :: "('m, 'g) env \<Rightarrow> 'm predictor \<Rightarrow> string \<Rightarrow> exn + ndarray" where
  "preprocess_image E s image_path =
     (case Image_open E image_path of
        Inl e \<Rightarrow> Inl e
      | Inr opened \<Rightarrow>
          let converted = (if mode opened = ''RGBA'' then convert_RGB opened else opened);
              resized = Image_resize E converted (img_size s, img_size s);
              image_array = np_divide (np_array resized) 255
          in Inr (expand_dims0 image_array))"

subsection \<open>Prediction\<close>

text \<open>The result dict of \<open>predict\<close>; \<open>category_id\<close> is its key \<open>'category_id'\<close>.\<close>

record result =
  item :: string
  category :: string
  confidence :: rat
  tip :: string
  co2 :: rat
  color :: string
  icon :: string
  category_id :: int

text \<open>Lines 178 to 193: the lookup of the category and the result built from it.\<close>

definition build_result :: "int \<Rightarrow> rat \<Rightarrow> exn + result" where
  "build_result cid conf =
     (case dict_getitem WASTE_CATEGORIES cid of
        Inl e \<Rightarrow> Inl e
      | Inr category_info \<Rightarrow>
          Inr \<lparr>item = cat_name category_info,
               category = cat_type category_info,
               confidence = py_round1 conf,
               tip = cat_tip category_info,
               co2 = cat_co2 category_info,
               color = cat_color category_info,
               icon = cat_icon category_info,
               category_id = cid\<rparr>)"

text \<open>
  Lines 169 to 172, the branch taken with a model: the class index and the confidence
  before rounding.
\<close>

definition real_prediction :: "('m, 'g) env \<Rightarrow> 'm predictor \<Rightarrow> 'm \<Rightarrow> string \<Rightarrow> exn + int \<times> rat" where
  "real_prediction E s m image_path =
     (case preprocess_image E s image_path of
        Inl e \<Rightarrow> Inl e
      | Inr processed_image \<Rightarrow>
          (case model_predict E m processed_image of
             Inl e \<Rightarrow> Inl e
           | Inr predictions \<Rightarrow>
               (case seq_getitem predictions 0 of
                  Inl e \<Rightarrow> Inl e
                | Inr row \<Rightarrow>
                    (case np_argmax row of
                       Inl e \<Rightarrow> Inl e
                     | Inr k \<Rightarrow>
                         (case seq_getitem row k of
                            Inl e \<Rightarrow> Inl e
                          | Inr p \<Rightarrow> Inr (int k, scalar_times_int E p 100))))))"

text \<open>Lines 175 and 176, the branch taken without a model: two draws.\<close>

definition demo_prediction :: "('m, 'g) env \<Rightarrow> 'g \<Rightarrow> (int \<times> rat) \<times> 'g" where
  "demo_prediction E g =
     (let (cid, g1) = randint E g 0 len_WASTE_CATEGORIES;
          (conf, g2) = uniform E g1 85 99
      in ((cid, conf), g2))"

text \<open>
  \<open>predict\<close> (lines 157 to 193) returns the result dict or the exception raised, and
  the world it leaves behind.
\<close>

definition predict ::
  "('m, 'g) env \<Rightarrow> ('m, 'g) world \<Rightarrow> string \<Rightarrow> (exn + result) \<times> ('m, 'g) world" where
  "predict E w image_path =
     (if model_loaded (self w) \<and> model (self w) \<noteq> None then
        (case real_prediction E (self w) (the (model (self w))) image_path of
           Inl e \<Rightarrow> (Inl e, w)
         | Inr (cid, conf) \<Rightarrow> (build_result cid conf, w))
      else
        (case demo_prediction E (rng w) of
           ((cid, conf), g') \<Rightarrow> (build_result cid conf, w\<lparr>rng := g'\<rparr>)))"

text \<open>
  \<open>predict_batch\<close> (line 205): the list comprehension calls \<open>predict\<close> on the paths
  from left to right, and an exception leaves it at once.
\<close>

fun predict_batch ::
  "('m, 'g) env \<Rightarrow> ('m, 'g) world \<Rightarrow> string list \<Rightarrow> (exn + result list) \<times> ('m, 'g) world" where
  "predict_batch E w [] = (Inr [], w)"
| "predict_batch E w (path # image_paths) =
     (case predict E w path of
        (Inl e, w') \<Rightarrow> (Inl e, w')
      | (Inr r, w') \<Rightarrow>
          (case predict_batch E w' image_paths of
             (Inl e, w'') \<Rightarrow> (Inl e, w'')
           | (Inr rs, w'') \<Rightarrow> (Inr (r # rs), w'')))"

subsection \<open>What the environment is assumed to do\<close>

text \<open>
  The documented ranges of the two draws: \<open>randint(low, high)\<close> lies in
  \<open>[low, high)\<close>, and \<open>uniform(low, high)\<close> between its bounds (the upper one can be
  reached by rounding).
\<close>

definition random_ok :: "('m, 'g) env \<Rightarrow> bool" where
  "random_ok E \<longleftrightarrow>
     (\<forall>g lo hi. lo < hi \<longrightarrow> lo \<le> fst (randint E g lo hi) \<and> fst (randint E g lo hi) < hi) \<and>
     (\<forall>g lo hi. lo \<le> hi \<longrightarrow> lo \<le> fst (uniform E g lo hi) \<and> fst (uniform E g lo hi) \<le> hi)"

text \<open>
  A vector of as many probabilities as there are categories: float32 values, none
  negative, and their sum within \<open>1/2000\<close> of one.
\<close>

definition probability_vector :: "rat list \<Rightarrow> bool" where
  "probability_vector v \<longleftrightarrow>
     int (length v) = len_WASTE_CATEGORIES \<and> (\<forall>p \<in> set v. is_float32 p \<and> 0 \<le> p) \<and>
     \<bar>sum_list v - 1\<bar> \<le> 1 / 2000"

definition model_ok :: "('m, 'g) env \<Rightarrow> bool" where
  "model_ok E \<longleftrightarrow>
     (\<forall>m x row rest. model_predict E m x = Inr (row # rest) \<longrightarrow> probability_vector row)"

text \<open>
  The argmax of the specification: an index of a greatest element with no equal element
  before it.
\<close>

definition first_max :: "rat list \<Rightarrow> nat \<Rightarrow> bool" where
  "first_max xs i \<longleftrightarrow>
     i < length xs \<and> (\<forall>j < length xs. xs ! j \<le> xs ! i) \<and> (\<forall>j < i. xs ! j < xs ! i)"

text \<open>
  Rounding to one decimal place, in the words of the specification: \<open>c\<close> is a whole
  number of tenths nearest to \<open>x\<close>, the even one when \<open>x\<close> is half way between two.
\<close>

definition nearest_tenth :: "rat \<Rightarrow> rat \<Rightarrow> bool" where
  "nearest_tenth x c \<longleftrightarrow>
     (\<exists>n::int. c = of_int n / 10 \<and> \<bar>x - c\<bar> \<le> 1 / 20 \<and> (\<bar>x - c\<bar> = 1 / 20 \<longrightarrow> even n))"

text \<open>
  The finite values of binary32: a mantissa of 24 bits with an exponent from \<open>-149\<close> to
  \<open>104\<close>.
\<close>

definition float32_value :: "rat \<Rightarrow> bool" where
  "float32_value x \<longleftrightarrow>
     (\<exists>m e::int. x = of_int m * 2 powi e \<and> \<bar>m\<bar> < 2 ^ 24 \<and> - 149 \<le> e \<and> e \<le> 104)"

text \<open>The console accepts every message.\<close>

definition console_ok :: "('m, 'g) env \<Rightarrow> bool" where
  "console_ok E \<longleftrightarrow> (\<forall>msg. py_print E msg = None)"

text \<open>The files do not change while the predictor is constructed.\<close>

definition files_stable :: "('m, 'g) env \<Rightarrow> bool" where
  "files_stable E \<longleftrightarrow> (\<forall>line path. os_stat E line path = os_stat E 92 path)"

text \<open>The world in which the call on the \<open>i\<close>-th path of a batch starts.\<close>

fun world_after :: "('m, 'g) env \<Rightarrow> ('m, 'g) world \<Rightarrow> string list \<Rightarrow> ('m, 'g) world" where
  "world_after E w [] = w"
| "world_after E w (path # image_paths) = world_after E (snd (predict E w path)) image_paths"

definition world_before :: "('m, 'g) env \<Rightarrow> ('m, 'g) world \<Rightarrow> string list \<Rightarrow> nat \<Rightarrow> ('m, 'g) world" where
  "world_before E w image_paths i = world_after E w (take i image_paths)"

subsection \<open>A concrete environment\<close>

text \<open>
  An environment on which the definitions can be evaluated. Its numpy keeps float32,
  and its console accepts every message. Its files are a model file, an empty one and one that does not load; its
  images are squares of one colour in the modes \<open>RGB\<close>, \<open>RGBA\<close>, \<open>L\<close> and \<open>LA\<close>,
  and every other path fails to decode. A model handle is a number: model \<open>0\<close> returns
  the float32 values nearest to \<open>0.1, 0.4, 0.4, 0.1, 0, 0\<close>, every other model a
  vector whose greatest element, times \<open>100\<close>, lies half way between two float32
  values. The generator's state is the list
  of the raw draws to come.
\<close>

definition solid :: "nat \<Rightarrow> nat \<Rightarrow> nat list \<Rightarrow> nat list list list" where
  "solid w h px = replicate h (replicate w px)"

definition solid_image :: "string \<Rightarrow> nat \<Rightarrow> nat list \<Rightarrow> image" where
  "solid_image m n px = \<lparr>mode = m, width = n, height = n, pixels = solid n n px\<rparr>"

text \<open>
  Resizing an image of one colour gives an image of that colour, whatever the filter;
  on such images this is \<open>image.resize\<close>.
\<close>

definition resize_solid :: "image \<Rightarrow> nat \<times> nat \<Rightarrow> image" where
  "resize_solid im sz =
     im\<lparr>width := fst sz, height := snd sz,
        pixels := solid (fst sz) (snd sz) (hd (hd (pixels im)))\<rparr>"

definition demo_stat :: "string \<Rightarrow> exn + nat" where
  "demo_stat path =
     (if path = ''model.h5'' then Inr 1024
      else if path = ''empty.h5'' then Inr 0
      else if path = ''corrupt.h5'' then Inr 16
      else Inl OSError)"

definition demo_load :: "string \<Rightarrow> exn + nat" where
  "demo_load path = (if path = ''model.h5'' then Inr 0 else Inl (OtherError ''bad file''))"

definition demo_row_tied :: "rat list" where
  "demo_row_tied =
     [13421773 / 2 ^ 27, 13421773 / 2 ^ 25, 13421773 / 2 ^ 25, 13421773 / 2 ^ 27, 0, 0]"

definition demo_row_sharp :: "rat list" where
  "demo_row_sharp = [30933 / 2 ^ 20, 1017643 / 2 ^ 20, 0, 0, 0, 0]"

definition demo_infer :: "nat \<Rightarrow> ndarray \<Rightarrow> exn + rat list list" where
  "demo_infer m x = (if m = 0 then Inr [demo_row_tied] else Inr [demo_row_sharp])"

definition demo_open :: "string \<Rightarrow> exn + image" where
  "demo_open path =
     (if path = ''red.png'' then Inr (solid_image ''RGB'' 2 [255, 0, 0])
      else if path = ''glass.png'' then Inr (solid_image ''RGBA'' 3 [0, 128, 255, 64])
      else if path = ''grey.png'' then Inr (solid_image ''L'' 2 [128])
      else if path = ''shade.png'' then Inr (solid_image ''LA'' 2 [128, 255])
      else Inl UnidentifiedImageError)"

definition demo_randint :: "nat list \<Rightarrow> int \<Rightarrow> int \<Rightarrow> int \<times> nat list" where
  "demo_randint g lo hi = (lo + int (case g of [] \<Rightarrow> 0 | n # ns \<Rightarrow> n) mod (hi - lo), tl g)"

definition demo_uniform :: "nat list \<Rightarrow> rat \<Rightarrow> rat \<Rightarrow> rat \<times> nat list" where
  "demo_uniform g lo hi =
     (lo + (hi - lo) * (of_nat ((case g of [] \<Rightarrow> 0 | n # ns \<Rightarrow> n) mod 1000) / 1000), tl g)"

definition demo_env :: "bool \<Rightarrow> (nat, nat list) env" where
  "demo_env tf =
     \<lparr>import_tensorflow = (if tf then None else Some ModuleNotFoundError),
      numpy_keeps_float32 = True,
      py_print = (\<lambda>msg. None), os_stat = (\<lambda>line. demo_stat), keras_load_model = demo_load,
      model_predict = demo_infer, Image_open = demo_open, Image_resize = resize_solid,
      randint = demo_randint, uniform = demo_uniform\<rparr>"

definition demo_mode :: "nat predictor" where
  "demo_mode = \<lparr>model = None, model_loaded = False, img_size = 224\<rparr>"

definition with_model :: "nat predictor" where
  "with_model = \<lparr>model = Some 0, model_loaded = True, img_size = 224\<rparr>"

definition with_sharp_model :: "nat predictor" where
  "with_sharp_model = \<lparr>model = Some 1, model_loaded = True, img_size = 224\<rparr>"

text \<open>
  A console that cannot encode the emoji (code page 1252, ASCII): \<open>print\<close> raises on
  the messages that hold one.
\<close>

definition narrow_console :: "message \<Rightarrow> exn option" where
  "narrow_console msg =
     (case msg of
        Please_ensure_saved \<Rightarrow> None
      | Model_path path \<Rightarrow> None
      | File_exists_size file_size \<Rightarrow> None
      | _ \<Rightarrow> Some UnicodeEncodeError)"

section \<open>Properties\<close>

subsection \<open>The category table\<close>

lemma len_WASTE_CATEGORIES_6: "len_WASTE_CATEGORIES = 6"
  by (simp add: len_WASTE_CATEGORIES_def WASTE_CATEGORIES_items_def)

lemma WASTE_CATEGORIES_keys: "map fst WASTE_CATEGORIES_items = [0, 1, 2, 3, 4, 5]"
  by (simp add: WASTE_CATEGORIES_items_def)

lemma dom_WASTE_CATEGORIES: "dom WASTE_CATEGORIES = {0..<6}"
proof -
  have "dom WASTE_CATEGORIES = set (map fst WASTE_CATEGORIES_items)"
    by (simp add: WASTE_CATEGORIES_def dom_map_of_conv_image_fst)
  also have "\<dots> = {0..<6}"
    unfolding WASTE_CATEGORIES_keys by auto
  finally show ?thesis .
qed

lemma getitem_inside:
  assumes "0 \<le> i" and "i < 6"
  shows "dict_getitem WASTE_CATEGORIES i = Inr (snd (WASTE_CATEGORIES_items ! nat i))
    \<and> fst (WASTE_CATEGORIES_items ! nat i) = i"
proof -
  from assms have "i = 0 \<or> i = 1 \<or> i = 2 \<or> i = 3 \<or> i = 4 \<or> i = 5"
    by arith
  then show ?thesis
    by (elim disjE)
      (simp_all add: dict_getitem_def WASTE_CATEGORIES_def WASTE_CATEGORIES_items_def)
qed

lemma getitem_outside:
  assumes "i < 0 \<or> 6 \<le> i"
  shows "dict_getitem WASTE_CATEGORIES i = Inl (KeyError i)"
proof -
  from assms have "i \<notin> dom WASTE_CATEGORIES"
    by (auto simp: dom_WASTE_CATEGORIES)
  then show ?thesis
    by (auto simp: dict_getitem_def domIff)
qed

text \<open>
  C3. The table has the six keys \<open>0, \<dots>, 5\<close>. The lookup \<open>WASTE_CATEGORIES[i]\<close>
  of an \<open>i\<close> in \<open>[0, 6)\<close> succeeds with the entry written under the key \<open>i\<close> (the
  \<open>i\<close>-th of the literal); for \<open>i < 0\<close> and for \<open>i \<ge> 6\<close> it raises
  \<open>KeyError\<close>, the out-of-range error of the dict.
\<close>

theorem taxonomy_lookup:
  "len_WASTE_CATEGORIES = 6 \<and> dom WASTE_CATEGORIES = {0..<len_WASTE_CATEGORIES} \<and>
   (0 \<le> i \<and> i < len_WASTE_CATEGORIES \<longrightarrow>
      dict_getitem WASTE_CATEGORIES i = Inr (snd (WASTE_CATEGORIES_items ! nat i)) \<and>
      fst (WASTE_CATEGORIES_items ! nat i) = i) \<and>
   (i < 0 \<or> len_WASTE_CATEGORIES \<le> i \<longrightarrow>
      dict_getitem WASTE_CATEGORIES i = Inl (KeyError i))"
  using getitem_inside [of i] getitem_outside [of i]
  by (simp add: len_WASTE_CATEGORIES_6 dom_WASTE_CATEGORIES)

theorem taxonomy_lookup_witness:
  "(\<exists>e. dict_getitem WASTE_CATEGORIES 3 = Inr e \<and> cat_name e = ''Paper'' \<and>
        cat_type e = ''Recyclable'' \<and> cat_color e = ''#10B981'') \<and>
   dict_getitem WASTE_CATEGORIES 6 = Inl (KeyError 6) \<and>
   dict_getitem WASTE_CATEGORIES (- 1) = Inl (KeyError (- 1))"
  using taxonomy_lookup [of 3] taxonomy_lookup [of 6] taxonomy_lookup [of "- 1"]
  by (simp add: WASTE_CATEGORIES_items_def)

subsection \<open>Rounding\<close>

lemma round_half_even_lower: "of_int a \<le> y \<Longrightarrow> a \<le> round_half_even y"
proof -
  assume "of_int a \<le> y"
  then have "a \<le> \<lfloor>y\<rfloor>" by (simp add: le_floor_iff)
  then show ?thesis by (simp add: round_half_even_def Let_def)
qed

lemma round_half_even_upper:
  assumes "y \<le> of_int b + 1 / 2" and "even b"
  shows "round_half_even y \<le> b"
proof -
  let ?f = "\<lfloor>y\<rfloor>"
  have f: "of_int ?f \<le> y" "y < of_int ?f + 1" by linarith+
  from f assms(1) have fb: "?f \<le> b" by linarith
  show ?thesis
  proof (cases "y - of_int ?f < 1 / 2")
    case True
    then show ?thesis using fb by (simp add: round_half_even_def Let_def)
  next
    case False
    note nlt = this
    show ?thesis
    proof (cases "1 / 2 < y - of_int ?f")
      case True
      with assms(1) have "(of_int ?f :: rat) < of_int b" by linarith
      then have "?f < b" by simp
      with True nlt show ?thesis by (simp add: round_half_even_def Let_def)
    next
      case False
      with nlt have eq: "y - of_int ?f = 1 / 2" by linarith
      show ?thesis
      proof (cases "even ?f")
        case True
        with eq fb show ?thesis by (simp add: round_half_even_def Let_def)
      next
        case False
        with assms(2) have "?f \<noteq> b" by auto
        with fb have "?f + 1 \<le> b" by linarith
        with False eq show ?thesis by (simp add: round_half_even_def Let_def)
      qed
    qed
  qed
qed

lemma round_half_even_upper_int: "y \<le> of_int b \<Longrightarrow> round_half_even y \<le> b"
proof -
  assume le: "y \<le> of_int b"
  let ?f = "\<lfloor>y\<rfloor>"
  have f: "of_int ?f \<le> y" "y < of_int ?f + 1" by linarith+
  show ?thesis
  proof (cases "y = of_int ?f")
    case True
    then have "y - of_int ?f = 0" by simp
    moreover from le True have "?f \<le> b" by linarith
    ultimately show ?thesis by (simp add: round_half_even_def Let_def)
  next
    case False
    with f le have "(of_int ?f :: rat) < of_int b" by linarith
    then have "?f + 1 \<le> b" by simp
    then show ?thesis by (simp add: round_half_even_def Let_def)
  qed
qed

lemma py_round1_bounds:
  assumes "of_int a \<le> x" and "x \<le> of_int b"
  shows "of_int a \<le> py_round1 x \<and> py_round1 x \<le> of_int b"
proof -
  have "(of_int (a * 10) :: rat) \<le> x * 10" using assms(1) by simp
  then have lo: "a * 10 \<le> round_half_even (x * 10)" by (rule round_half_even_lower)
  have "x * 10 \<le> (of_int (b * 10) :: rat)" using assms(2) by simp
  then have hi: "round_half_even (x * 10) \<le> b * 10" by (rule round_half_even_upper_int)
  from lo have "(of_int (a * 10) :: rat) \<le> of_int (round_half_even (x * 10))"
    by (simp only: of_int_le_iff)
  moreover from hi have "(of_int (round_half_even (x * 10)) :: rat) \<le> of_int (b * 10)"
    by (simp only: of_int_le_iff)
  ultimately show ?thesis by (simp add: py_round1_def)
qed

lemma py_round1_percent:
  assumes "0 \<le> x" and "x \<le> 100 + 1 / 20"
  shows "0 \<le> py_round1 x \<and> py_round1 x \<le> 100"
proof -
  have "(of_int 0 :: rat) \<le> x * 10" using assms(1) by simp
  then have lo: "0 \<le> round_half_even (x * 10)" by (rule round_half_even_lower)
  have "x * 10 \<le> of_int 1000 + 1 / 2" using assms(2) by simp
  then have hi: "round_half_even (x * 10) \<le> 1000"
    by (rule round_half_even_upper) simp
  from lo have "(of_int 0 :: rat) \<le> of_int (round_half_even (x * 10))"
    by (simp only: of_int_le_iff)
  moreover from hi have "(of_int (round_half_even (x * 10)) :: rat) \<le> of_int 1000"
    by (simp only: of_int_le_iff)
  ultimately show ?thesis by (simp add: py_round1_def)
qed

lemma py_round1_tenths: "\<exists>k::int. py_round1 x = of_int k / 10"
  by (auto simp: py_round1_def)

lemma round_half_even_error:
  "\<bar>y - of_int (round_half_even y)\<bar> \<le> 1 / 2 \<and>
   (\<bar>y - of_int (round_half_even y)\<bar> = 1 / 2 \<longrightarrow> even (round_half_even y))"
proof -
  let ?f = "\<lfloor>y\<rfloor>"
  have f: "of_int ?f \<le> y" "y < of_int ?f + 1" by linarith+
  consider "y - of_int ?f < 1 / 2" | "1 / 2 < y - of_int ?f" | "y - of_int ?f = 1 / 2"
    by linarith
  then show ?thesis
  proof cases
    case 1
    then have "round_half_even y = ?f" by (simp add: round_half_even_def Let_def)
    with 1 f show ?thesis by simp
  next
    case 2
    then have "round_half_even y = ?f + 1" by (simp add: round_half_even_def Let_def)
    with 2 f show ?thesis by simp
  next
    case 3
    then have r: "round_half_even y = (if even ?f then ?f else ?f + 1)"
      by (simp add: round_half_even_def Let_def)
    show ?thesis
    proof (cases "even ?f")
      case True
      with r 3 show ?thesis by simp
    next
      case False
      with r have "round_half_even y = ?f + 1" by simp
      with 3 False show ?thesis by simp
    qed
  qed
qed

lemma round_half_even_upper_strict:
  assumes "y < of_int b + 1 / 2"
  shows "round_half_even y \<le> b"
proof -
  from round_half_even_error [of y]
  have "of_int (round_half_even y) \<le> y + 1 / 2" by linarith
  with assms have "(of_int (round_half_even y) :: rat) < of_int b + 1" by linarith
  then have "(of_int (round_half_even y) :: rat) < of_int (b + 1)" by simp
  then have "round_half_even y < b + 1" by (simp only: of_int_less_iff)
  then show ?thesis by simp
qed

lemma py_round1_nearest_tenth: "nearest_tenth x (py_round1 x)"
proof -
  let ?n = "round_half_even (x * 10)"
  from round_half_even_error [of "x * 10"]
  have e: "\<bar>x * 10 - of_int ?n\<bar> \<le> 1 / 2"
    and t: "\<bar>x * 10 - of_int ?n\<bar> = 1 / 2 \<longrightarrow> even ?n"
    by simp_all
  have d: "\<bar>x - of_int ?n / 10\<bar> = \<bar>x * 10 - of_int ?n\<bar> / 10"
  proof -
    have "x - of_int ?n / 10 = (x * 10 - of_int ?n) / 10" by simp
    then show ?thesis by (simp only: abs_divide abs_numeral)
  qed
  from e d have "\<bar>x - of_int ?n / 10\<bar> \<le> 1 / 20" by simp
  moreover from t d have "\<bar>x - of_int ?n / 10\<bar> = 1 / 20 \<longrightarrow> even ?n" by simp
  ultimately show ?thesis
    unfolding nearest_tenth_def py_round1_def by blast
qed

subsection \<open>Rounding to float32\<close>

lemma pow2_less_imp_less:
  assumes "(2::rat) powi a < 2 powi b"
  shows "a < b"
proof (rule ccontr)
  assume "\<not> a < b"
  then have "b \<le> a" by simp
  then have "(2::rat) powi b \<le> 2 powi a" by (intro power_int_increasing) simp_all
  with assms show False by simp
qed

lemma float_exponent_from_range:
  "e \<le> float_exponent_from k e x \<and> float_exponent_from k e x \<le> e + int k"
proof (induction k arbitrary: e)
  case 0
  then show ?case by simp
next
  case (Suc k)
  from Suc [of "e + 1"] show ?case by auto
qed

lemma float_exponent_from_above:
  "\<bar>x\<bar> < 2 powi (e + int k + 1) \<Longrightarrow> \<bar>x\<bar> < 2 powi (float_exponent_from k e x + 1)"
proof (induction k arbitrary: e)
  case 0
  then show ?case by simp
next
  case (Suc k)
  show ?case
  proof (cases "\<bar>x\<bar> < 2 powi (e + 1)")
    case True
    then show ?thesis by simp
  next
    case False
    from Suc.prems have "\<bar>x\<bar> < 2 powi (e + 1 + int k + 1)" by (simp add: add.commute add.left_commute)
    then have "\<bar>x\<bar> < 2 powi (float_exponent_from k (e + 1) x + 1)" by (rule Suc.IH)
    with False show ?thesis by simp
  qed
qed

lemma float_exponent_from_below:
  "float_exponent_from k e x = e \<or> 2 powi (float_exponent_from k e x) \<le> \<bar>x\<bar>"
proof (induction k arbitrary: e)
  case 0
  then show ?case by simp
next
  case (Suc k)
  show ?case
  proof (cases "\<bar>x\<bar> < 2 powi (e + 1)")
    case True
    then show ?thesis by simp
  next
    case False
    then have le: "2 powi (e + 1) \<le> \<bar>x\<bar>" by simp
    from Suc.IH [of "e + 1"] le False show ?thesis by auto
  qed
qed

lemma float32_exponent_range:
  "- 126 \<le> float32_exponent x \<and> float32_exponent x \<le> 127"
  using float_exponent_from_range [of "- 126" 253 x] by (simp add: float32_exponent_def)

lemma float32_exponent_above:
  assumes "\<bar>x\<bar> < 2 powi 128"
  shows "\<bar>x\<bar> < 2 powi (float32_exponent x + 1)"
proof -
  from assms have "\<bar>x\<bar> < 2 powi (- 126 + int 253 + 1)" by simp
  then show ?thesis unfolding float32_exponent_def by (rule float_exponent_from_above)
qed

lemma float32_exponent_below:
  "float32_exponent x = - 126 \<or> 2 powi (float32_exponent x) \<le> \<bar>x\<bar>"
  unfolding float32_exponent_def by (rule float_exponent_from_below)

lemma float32_exponent_le:
  assumes "\<bar>x\<bar> < 2 powi (n + 1)" and "- 126 \<le> n"
  shows "float32_exponent x \<le> n"
proof -
  from float32_exponent_below [of x] show ?thesis
  proof
    assume "float32_exponent x = - 126"
    with assms(2) show ?thesis by simp
  next
    assume "2 powi (float32_exponent x) \<le> \<bar>x\<bar>"
    with assms(1) have "(2::rat) powi (float32_exponent x) < 2 powi (n + 1)" by simp
    then have "float32_exponent x < n + 1" by (rule pow2_less_imp_less)
    then show ?thesis by simp
  qed
qed

lemma float32_exponent_eq:
  assumes "2 powi n \<le> \<bar>x\<bar>" and "\<bar>x\<bar> < 2 powi (n + 1)" and "- 126 \<le> n" and "n \<le> 127"
  shows "float32_exponent x = n"
proof -
  have le: "float32_exponent x \<le> n" using assms(2,3) by (rule float32_exponent_le)
  from assms(4) have "(2::rat) powi (n + 1) \<le> 2 powi 128"
    by (intro power_int_increasing) simp_all
  with assms(2) have "\<bar>x\<bar> < 2 powi 128" by simp
  then have "\<bar>x\<bar> < 2 powi (float32_exponent x + 1)" by (rule float32_exponent_above)
  with assms(1) have "(2::rat) powi n < 2 powi (float32_exponent x + 1)" by simp
  then have "n < float32_exponent x + 1" by (rule pow2_less_imp_less)
  with le show ?thesis by simp
qed

lemma float32_quantum_pos: "0 < (2::rat) powi n"
  by simp

lemma float32_round_nonneg:
  assumes "0 \<le> x"
  shows "0 \<le> float32_round x"
proof -
  let ?q = "(2::rat) powi (float32_exponent x - 23)"
  have q: "0 < ?q" by simp
  with assms have "of_int 0 \<le> x / ?q" by simp
  then have "0 \<le> round_half_even (x / ?q)" by (rule round_half_even_lower)
  then have "(0::rat) \<le> of_int (round_half_even (x / ?q))" by simp
  with q show ?thesis by (simp add: float32_round_def Let_def)
qed

lemma float32_round_le_grid:
  assumes "x \<le> of_int M * 2 powi (float32_exponent x - 23)"
  shows "float32_round x \<le> of_int M * 2 powi (float32_exponent x - 23)"
proof -
  let ?q = "(2::rat) powi (float32_exponent x - 23)"
  have q: "0 < ?q" by simp
  from assms q have "x / ?q \<le> of_int M" by (simp add: pos_divide_le_eq)
  then have "round_half_even (x / ?q) \<le> M" by (rule round_half_even_upper_int)
  then have "(of_int (round_half_even (x / ?q)) :: rat) \<le> of_int M" by (simp only: of_int_le_iff)
  with q have "of_int (round_half_even (x / ?q)) * ?q \<le> of_int M * ?q"
    by (simp only: mult_le_cancel_right_pos)
  then show ?thesis by (simp add: float32_round_def Let_def)
qed

lemma float32_round_error:
  "\<bar>float32_round x - x\<bar> \<le> 2 powi (float32_exponent x - 23) / 2"
proof -
  let ?q = "(2::rat) powi (float32_exponent x - 23)"
  let ?n = "round_half_even (x / ?q)"
  have q: "0 < ?q" by simp
  from round_half_even_error [of "x / ?q"] have e: "\<bar>x / ?q - of_int ?n\<bar> \<le> 1 / 2" by simp
  have "float32_round x - x = (of_int ?n - x / ?q) * ?q"
    using q by (simp add: float32_round_def Let_def algebra_simps)
  then have "\<bar>float32_round x - x\<bar> = \<bar>of_int ?n - x / ?q\<bar> * ?q"
    using q by (simp add: abs_mult)
  also have "\<dots> = \<bar>x / ?q - of_int ?n\<bar> * ?q" by (simp add: abs_minus_commute)
  also from e q have "\<dots> \<le> 1 / 2 * ?q" by (simp only: mult_le_cancel_right_pos)
  finally show ?thesis by simp
qed

lemma pow2_int: "0 \<le> n \<Longrightarrow> (2::rat) powi n = of_int (2 ^ nat n)"
  by (simp add: power_int_def)

lemma pow2_cancel: "(2::rat) powi a * 2 powi (b - a) = 2 powi b"
proof -
  have "(2::rat) powi (a + (b - a)) = 2 powi a * 2 powi (b - a)"
    by (rule power_int_add) simp
  then show ?thesis by simp
qed

lemma float32_round_below_100:
  assumes "0 \<le> x" and "x \<le> 100"
  shows "float32_round x \<le> 100"
proof -
  let ?e = "float32_exponent x"
  from assms have "\<bar>x\<bar> < 2 powi (6 + 1)" by simp
  then have e: "?e \<le> 6" by (rule float32_exponent_le) simp
  let ?M = "100 * 2 ^ nat (23 - ?e) :: int"
  from e have "(2::rat) powi (23 - ?e) = of_int (2 ^ nat (23 - ?e))"
    by (intro pow2_int) simp
  then have "of_int ?M * (2::rat) powi (?e - 23) = 100 * (2 powi (23 - ?e) * 2 powi (?e - 23))"
    by simp
  also have "(2::rat) powi (23 - ?e) * 2 powi (?e - 23) = 2 powi 0"
    using pow2_cancel [of "23 - ?e" 0] by simp
  finally have M: "of_int ?M * (2::rat) powi (?e - 23) = 100" by simp
  with assms(2) have "x \<le> of_int ?M * 2 powi (?e - 23)" by simp
  then have "float32_round x \<le> of_int ?M * 2 powi (?e - 23)" by (rule float32_round_le_grid)
  with M show ?thesis by simp
qed

lemma float32_probability_grid:
  assumes "is_float32 p" and "1 \<le> p" and "p \<le> 1 + 1 / 2000"
  shows "\<exists>k::int. p = of_int k / 2 ^ 23 \<and> k \<le> 8392802"
proof -
  from assms(2,3) have "2 powi 0 \<le> \<bar>p\<bar>" "\<bar>p\<bar> < 2 powi (0 + 1)" by simp_all
  then have e: "float32_exponent p = 0" by (rule float32_exponent_eq) simp_all
  let ?k = "round_half_even (p / 2 powi (- 23))"
  from assms(1) have "float32_round p = p" by (simp add: is_float32_def)
  with e have p: "p = of_int ?k * 2 powi (- 23)" by (simp add: float32_round_def Let_def)
  then have pk: "p = of_int ?k / 2 ^ 23" by (simp add: power_int_minus_divide)
  with assms(3) have "(of_int ?k :: rat) \<le> (1 + 1 / 2000) * 2 ^ 23" by (simp add: pos_divide_le_eq)
  then have "(of_int ?k :: rat) < of_int 8392803" by simp
  then have "?k < 8392803" by (simp only: of_int_less_iff)
  then have "?k \<le> 8392802" by simp
  with pk show ?thesis by blast
qed

lemma float32_round_percent_top:
  assumes "is_float32 p" and "1 \<le> p" and "p \<le> 1 + 1 / 2000"
  shows "float32_round (p * 100) \<le> 100 + 1 / 20"
proof -
  from float32_probability_grid [OF assms] obtain k :: int
    where p: "p = of_int k / 2 ^ 23" and k: "k \<le> 8392802"
    by blast
  let ?x = "p * 100"
  from assms(2,3) have "2 powi 6 \<le> \<bar>?x\<bar>" "\<bar>?x\<bar> < 2 powi (6 + 1)" by simp_all
  then have e: "float32_exponent ?x = 6" by (rule float32_exponent_eq) simp_all
  from k have "(of_int k :: rat) \<le> 8392802" by (metis of_int_le_iff of_int_numeral)
  then have "?x / 2 powi (- 17) < of_int 13113753 + 1 / 2"
    by (simp add: p power_int_minus_divide)
  then have "round_half_even (?x / 2 powi (- 17)) \<le> 13113753"
    by (rule round_half_even_upper_strict)
  then have "(of_int (round_half_even (?x / 2 powi (- 17))) :: rat) \<le> 13113753"
    by (metis of_int_le_iff of_int_numeral)
  then have "float32_round ?x \<le> 13113753 * 2 powi (- 17)"
    using e by (simp add: float32_round_def Let_def)
  also have "\<dots> \<le> 100 + 1 / 20" by (simp add: power_int_minus_divide)
  finally show ?thesis .
qed

text \<open>
  The product of a float32 probability of at most \<open>1 + 1/2000\<close> with \<open>100\<close> stays
  below \<open>100.05\<close> after rounding to float32.
\<close>

lemma np_multiply32_percent:
  assumes "is_float32 p" and "0 \<le> p" and "p \<le> 1 + 1 / 2000"
  shows "0 \<le> np_multiply32 p 100 \<and> np_multiply32 p 100 \<le> 100 + 1 / 20"
proof -
  from assms(2) have "0 \<le> float32_round (p * 100)" by (intro float32_round_nonneg) simp
  moreover have "float32_round (p * 100) \<le> 100 + 1 / 20"
  proof (cases "p \<le> 1")
    case True
    with assms(2) have "float32_round (p * 100) \<le> 100"
      by (intro float32_round_below_100) simp_all
    then show ?thesis by simp
  next
    case False
    then have "1 \<le> p" by simp
    with assms(1) show ?thesis using assms(3) by (rule float32_round_percent_top)
  qed
  ultimately show ?thesis by (simp add: np_multiply32_def)
qed

lemma np_multiply32_percent_error:
  assumes "0 \<le> p" and "p \<le> 1 + 1 / 2000"
  shows "\<bar>np_multiply32 p 100 - p * 100\<bar> \<le> 2 powi (- 18)"
proof -
  let ?x = "p * 100"
  from assms have "\<bar>?x\<bar> < 2 powi (6 + 1)" by simp
  then have "float32_exponent ?x \<le> 6" by (rule float32_exponent_le) simp
  then have "(2::rat) powi (float32_exponent ?x - 23) \<le> 2 powi (- 17)"
    by (intro power_int_increasing) simp_all
  with float32_round_error [of ?x] have "\<bar>float32_round ?x - ?x\<bar> \<le> 2 powi (- 17) / 2"
    by linarith
  then show ?thesis by (simp add: np_multiply32_def power_int_minus_divide)
qed

lemma pow2_twice: "2 * (2::rat) powi (e - 23) = 2 powi (e - 22)"
proof -
  have "(2::rat) powi (1 + (e - 23)) = 2 powi 1 * 2 powi (e - 23)"
    by (rule power_int_add) simp
  moreover have "1 + (e - 23) = e - 22" by simp
  ultimately show ?thesis by simp
qed

lemma float32_round_mantissa:
  assumes "\<bar>x\<bar> < 2 powi 128"
  shows "- 16777216 \<le> round_half_even (x / 2 powi (float32_exponent x - 23)) \<and>
    round_half_even (x / 2 powi (float32_exponent x - 23)) \<le> 16777216"
proof -
  let ?e = "float32_exponent x"
  let ?q = "(2::rat) powi (?e - 23)"
  have q: "0 < ?q" by simp
  from assms have "\<bar>x\<bar> < 2 powi (?e + 1)" by (rule float32_exponent_above)
  also have "(2::rat) powi (?e + 1) = ?q * 2 powi 24"
    using pow2_cancel [of "?e - 23" "?e + 1"] by simp
  finally have "\<bar>x\<bar> < ?q * 16777216" by simp
  then have a: "\<bar>x\<bar> / ?q < 16777216" using q by (simp add: pos_divide_less_eq mult.commute)
  define y where "y = x / ?q"
  have "\<bar>y\<bar> = \<bar>x\<bar> / ?q" using q by (simp add: y_def abs_divide)
  with a have "\<bar>y\<bar> < 16777216" by simp
  then have "y \<le> 16777216" "- 16777216 \<le> y" by linarith+
  then have yy: "y \<le> of_int 16777216" "of_int (- 16777216) \<le> y" by simp_all
  from yy(1) have "round_half_even y \<le> 16777216" by (rule round_half_even_upper_int)
  moreover from yy(2) have "- 16777216 \<le> round_half_even y" by (rule round_half_even_lower)
  ultimately show ?thesis by (simp add: y_def)
qed

lemma float32_round_value:
  assumes "\<bar>x\<bar> < 2 powi 127"
  shows "float32_value (float32_round x)"
proof -
  let ?e = "float32_exponent x"
  let ?q = "(2::rat) powi (?e - 23)"
  define n where "n = round_half_even (x / ?q)"
  have lo: "- 126 \<le> ?e" using float32_exponent_range [of x] by simp
  from assms have "\<bar>x\<bar> < 2 powi (126 + 1)" by simp
  then have hi: "?e \<le> 126" by (rule float32_exponent_le) simp
  have "(2::rat) powi 127 \<le> 2 powi 128" by (intro power_int_increasing) simp_all
  with assms have "\<bar>x\<bar> < 2 powi 128" by simp
  from float32_round_mantissa [OF this] have n: "- 16777216 \<le> n" "n \<le> 16777216"
    by (simp_all add: n_def)
  have c: "float32_round x = of_int n * ?q" by (simp add: float32_round_def Let_def n_def)
  consider "- 16777216 < n \<and> n < 16777216" | "n = 16777216" | "n = - 16777216"
    using n by linarith
  then show ?thesis
  proof cases
    case 1
    then have "\<bar>n\<bar> < 16777216" by linarith
    then have "\<bar>n\<bar> < 2 ^ 24" by simp
    moreover from lo hi have "- 149 \<le> ?e - 23" "?e - 23 \<le> 104" by simp_all
    ultimately show ?thesis
      unfolding float32_value_def using c by blast
  next
    case 2
    with c have "float32_round x = of_int 8388608 * (2 * ?q)" by simp
    then have "float32_round x = of_int 8388608 * 2 powi (?e - 22)" by (simp only: pow2_twice)
    moreover have "\<bar>8388608 :: int\<bar> < 2 ^ 24" by simp
    moreover from lo hi have "- 149 \<le> ?e - 22" "?e - 22 \<le> 104" by simp_all
    ultimately show ?thesis
      unfolding float32_value_def by blast
  next
    case 3
    with c have "float32_round x = of_int (- 8388608) * (2 * ?q)" by simp
    then have "float32_round x = of_int (- 8388608) * 2 powi (?e - 22)" by (simp only: pow2_twice)
    moreover have "\<bar>- 8388608 :: int\<bar> < 2 ^ 24" by simp
    moreover from lo hi have "- 149 \<le> ?e - 22" "?e - 22 \<le> 104" by simp_all
    ultimately show ?thesis
      unfolding float32_value_def by blast
  qed
qed

lemma np_multiply32_percent_value:
  assumes "0 \<le> p" and "p \<le> 1 + 1 / 2000"
  shows "float32_value (np_multiply32 p 100)"
proof -
  from assms have "\<bar>p * 100\<bar> < 2 powi 7" by simp
  also have "(2::rat) powi 7 \<le> 2 powi 127" by (intro power_int_increasing) simp_all
  finally show ?thesis unfolding np_multiply32_def by (rule float32_round_value)
qed

lemma round_half_even_of_int: "round_half_even (of_int n) = n"
  by (simp add: round_half_even_def Let_def)

lemma float64_exponent_le:
  assumes "\<bar>x\<bar> < 2 powi (n + 1)" and "- 1022 \<le> n"
  shows "float64_exponent x \<le> n"
proof -
  from float_exponent_from_below [of 2045 "- 1022" x]
  have "float64_exponent x = - 1022 \<or> 2 powi (float64_exponent x) \<le> \<bar>x\<bar>"
    by (simp add: float64_exponent_def)
  then show ?thesis
  proof
    assume "float64_exponent x = - 1022"
    with assms(2) show ?thesis by simp
  next
    assume "2 powi (float64_exponent x) \<le> \<bar>x\<bar>"
    with assms(1) have "(2::rat) powi (float64_exponent x) < 2 powi (n + 1)" by simp
    then have "float64_exponent x < n + 1" by (rule pow2_less_imp_less)
    then show ?thesis by simp
  qed
qed

text \<open>In float64 the product of a float32 value with \<open>100\<close> is exact.\<close>

lemma float64_round_percent_exact:
  assumes "is_float32 p"
  shows "float64_round (p * 100) = p * 100"
proof -
  let ?ep = "float32_exponent p"
  let ?ex = "float64_exponent (p * 100)"
  define k where "k = round_half_even (p / 2 powi (?ep - 23))"
  from assms have "float32_round p = p" and small: "\<bar>p\<bar> < 2 powi 128"
    by (simp_all add: is_float32_def)
  then have p: "p = of_int k * 2 powi (?ep - 23)"
    by (simp add: float32_round_def Let_def k_def)
  have lo: "- 126 \<le> ?ep" using float32_exponent_range [of p] by simp
  from small have "\<bar>p\<bar> < 2 powi (?ep + 1)" by (rule float32_exponent_above)
  then have "\<bar>p * 100\<bar> < 2 powi (?ep + 1) * 2 powi 7" by (simp add: abs_mult)
  also have "(2::rat) powi (?ep + 1) * 2 powi 7 = 2 powi (?ep + 7 + 1)"
  proof -
    have "(2::rat) powi (?ep + 7 + 1) = 2 powi ((?ep + 1) + 7)"
      by (rule arg_cong [where f = "\<lambda>n. 2 powi n"]) simp
    also have "\<dots> = 2 powi (?ep + 1) * 2 powi 7" by (rule power_int_add) simp
    finally show ?thesis by (rule sym)
  qed
  finally have "?ex \<le> ?ep + 7" using lo by (intro float64_exponent_le) simp_all
  then have d: "0 \<le> ?ep - ?ex + 29" by simp
  define M where "M = k * 100 * 2 ^ nat (?ep - ?ex + 29)"
  have "(2::rat) powi (?ex - 52) * 2 powi (?ep - ?ex + 29) = 2 powi (?ep - 23)"
  proof -
    have "(2::rat) powi (?ep - 23) = 2 powi ((?ex - 52) + (?ep - ?ex + 29))"
      by (rule arg_cong [where f = "\<lambda>n. 2 powi n"]) simp
    also have "\<dots> = 2 powi (?ex - 52) * 2 powi (?ep - ?ex + 29)"
      by (rule power_int_add) simp
    finally show ?thesis by (rule sym)
  qed
  moreover from d have "(2::rat) powi (?ep - ?ex + 29) = of_int (2 ^ nat (?ep - ?ex + 29))"
    by (rule pow2_int)
  ultimately have "(2::rat) powi (?ep - 23) = of_int (2 ^ nat (?ep - ?ex + 29)) * 2 powi (?ex - 52)"
    by (simp add: mult.commute)
  with p have x: "p * 100 = of_int M * 2 powi (?ex - 52)"
    by (simp add: M_def)
  have q: "(2::rat) powi (?ex - 52) \<noteq> 0" by simp
  from x q have "p * 100 / 2 powi (?ex - 52) = of_int M" by (simp add: field_simps)
  then have "round_half_even (p * 100 / 2 powi (?ex - 52)) = M"
    by (simp only: round_half_even_of_int)
  then have "float64_round (p * 100) = of_int M * 2 powi (?ex - 52)"
    by (simp add: float64_round_def Let_def)
  with x show ?thesis by simp
qed

lemma scalar_times_int_percent:
  assumes "is_float32 p" and "0 \<le> p" and "p \<le> 1 + 1 / 2000"
  shows "0 \<le> scalar_times_int E p 100 \<and> scalar_times_int E p 100 \<le> 100 + 1 / 20"
proof (cases "numpy_keeps_float32 E")
  case True
  with np_multiply32_percent [OF assms] show ?thesis by (simp add: scalar_times_int_def)
next
  case False
  from assms(1) have "np_multiply64 p 100 = p * 100"
    unfolding np_multiply64_def by (rule float64_round_percent_exact)
  with False assms(2,3) show ?thesis by (simp add: scalar_times_int_def)
qed

subsection \<open>Initialisation\<close>

lemma printing_ok: "console_ok E \<Longrightarrow> printing E msg rest = rest"
  by (simp add: printing_def console_ok_def)

lemma load_model_quiet:
  assumes "console_ok E" and "files_stable E"
  shows "load_model E s path =
     Inr (case os_stat E 92 path of
        Inl e \<Rightarrow> no_model s
      | Inr n \<Rightarrow>
          if n = 0 then no_model s
          else (case keras_load_model E path of
                  Inl e \<Rightarrow> no_model s
                | Inr m \<Rightarrow> s\<lparr>model := Some m, model_loaded := True\<rparr>))"
proof -
  from assms(2) have st: "os_stat E 101 path = os_stat E 92 path"
    "os_stat E 108 path = os_stat E 92 path" "os_stat E 123 path = os_stat E 92 path"
    "os_stat E 124 path = os_stat E 92 path"
    unfolding files_stable_def by blast+
  show ?thesis
    by (simp add: load_model_def load_model_try_def printing_ok [OF assms(1)]
        os_path_exists_def os_path_getsize_def st split: sum.splits)
qed

text \<open>
  On a console that accepts every message and with files that do not change,
  \<open>__init__\<close> returns a predictor, and one without a model when the path does not
  exist, the file is empty or loading it raises.
\<close>

lemma init_quiet:
  assumes "console_ok E" and "files_stable E"
  shows "\<exists>s. init E tf model_path = Inr s"
  by (simp add: init_def Let_def load_model_quiet [OF assms] printing_ok [OF assms(1)]
      split: option.splits)

lemma init_quiet_demo_mode:
  assumes "console_ok E" and "files_stable E"
    and "\<not> os_path_exists E 92 path \<or> os_path_getsize E 92 path = Inr 0 \<or>
      (\<exists>e. keras_load_model E path = Inl e)"
  shows "init E tf (Some path) = Inr \<lparr>model = None, model_loaded = False, img_size = 224\<rparr>"
  using assms(3)
  by (auto simp: init_def Let_def load_model_quiet [OF assms(1,2)] printing_ok [OF assms(1)]
      no_model_def os_path_exists_def os_path_getsize_def split: sum.splits)

lemma demo_console_ok: "console_ok (demo_env tf)"
  by (simp add: console_ok_def demo_env_def)

lemma demo_files_stable: "files_stable (demo_env tf)"
  by (simp add: files_stable_def demo_env_def)

text \<open>
  C4, where the code departs from it. On a console that cannot encode the emoji of the
  messages \<open>__init__\<close> raises \<open>UnicodeEncodeError\<close>: for a path that does not exist,
  from the \<open>print\<close> of line 95, which no \<open>try\<close> encloses; for an empty file and for a
  file that does not load, from the handler's own \<open>print\<close> of line 121, which comes
  before the attributes are reset. On the console that accepts every message the same
  three calls return the predictor without a model.
\<close>

theorem init_raises_on_narrow_console:
  "init (demo_env True\<lparr>py_print := narrow_console\<rparr>) True (Some ''missing.h5'')
     = Inl UnicodeEncodeError \<and>
   init (demo_env True\<lparr>py_print := narrow_console\<rparr>) True (Some ''empty.h5'')
     = Inl UnicodeEncodeError \<and>
   init (demo_env True\<lparr>py_print := narrow_console\<rparr>) True (Some ''corrupt.h5'')
     = Inl UnicodeEncodeError \<and>
   init (demo_env True) True (Some ''missing.h5'') = Inr demo_mode \<and>
   init (demo_env True) True (Some ''empty.h5'') = Inr demo_mode \<and>
   init (demo_env True) True (Some ''corrupt.h5'') = Inr demo_mode"
  by (simp add: init_def load_model_def load_model_try_def printing_def narrow_console_def
      os_path_exists_def os_path_getsize_def demo_env_def demo_stat_def demo_load_def
      demo_mode_def no_model_def)

text \<open>
  The handler asks for the file's size once more (line 124): a file removed in the
  meantime makes \<open>os.path.getsize\<close> raise there, and the error leaves \<open>__init__\<close>.
\<close>

lemma init_raises_when_file_vanishes:
  "init (demo_env True\<lparr>os_stat := \<lambda>line path. if line = 124 then Inl OSError else demo_stat path\<rparr>)
     True (Some ''corrupt.h5'') = Inl OSError"
  by (simp add: init_def load_model_def load_model_try_def printing_def
      os_path_exists_def os_path_getsize_def demo_env_def demo_stat_def demo_load_def)

lemma predict_demo_mode:
  "\<not> (model_loaded (self w) \<and> model (self w) \<noteq> None) \<Longrightarrow>
   predict E w p =
     (case demo_prediction E (rng w) of
        ((cid, conf), g') \<Rightarrow> (build_result cid conf, w\<lparr>rng := g'\<rparr>))"
  unfolding predict_def by (rule if_not_P)

text \<open>
  Without TensorFlow, on a console that accepts every message: the import ends with
  \<open>TF_AVAILABLE = False\<close>, \<open>__init__\<close> returns the predictor without a model
  whatever \<open>keras.models.load_model\<close> would do, and \<open>predict\<close> takes the demo branch.
  A predictor with \<open>model_loaded = True\<close> is only returned when TensorFlow is there.
\<close>

lemma load_module_import_error:
  assumes "import_tensorflow E = Some e" and "isinstance_ImportError e" and "console_ok E"
  shows "load_module E = Inr False"
  using assms by (simp add: load_module_def printing_ok)

lemma init_loaded_needs_framework:
  assumes "init E tf model_path = Inr s" and "model_loaded s" and "console_ok E"
  shows "tf"
proof (rule ccontr)
  assume "\<not> tf"
  then have "init E tf model_path = Inr \<lparr>model = None, model_loaded = False, img_size = 224\<rparr>"
    by (simp add: init_def Let_def printing_ok [OF assms(3)] split: option.splits)
  with assms(1) have "s = \<lparr>model = None, model_loaded = False, img_size = 224\<rparr>" by simp
  with assms(2) show False by simp
qed

lemma no_framework_no_model_quiet:
  assumes "console_ok E"
  shows "init E False model_path = Inr \<lparr>model = None, model_loaded = False, img_size = 224\<rparr> \<and>
    init (E\<lparr>keras_load_model := f\<rparr>) False model_path = init E False model_path \<and>
    (\<forall>s. init E False model_path = Inr s \<and> self w = s \<longrightarrow>
       predict E w image_path =
         (case demo_prediction E (rng w) of
            ((cid, conf), g') \<Rightarrow> (build_result cid conf, w\<lparr>rng := g'\<rparr>)))"
proof -
  have a: "init E False model_path = Inr \<lparr>model = None, model_loaded = False, img_size = 224\<rparr>"
    by (simp add: init_def Let_def printing_ok [OF assms] split: option.splits)
  from assms have "console_ok (E\<lparr>keras_load_model := f\<rparr>)" by (simp add: console_ok_def)
  then have "init (E\<lparr>keras_load_model := f\<rparr>) False model_path
      = Inr \<lparr>model = None, model_loaded = False, img_size = 224\<rparr>"
    by (simp add: init_def Let_def printing_ok split: option.splits)
  with a have b: "init (E\<lparr>keras_load_model := f\<rparr>) False model_path = init E False model_path"
    by simp
  have c: "predict E w image_path =
         (case demo_prediction E (rng w) of
            ((cid, conf), g') \<Rightarrow> (build_result cid conf, w\<lparr>rng := g'\<rparr>))"
    if "init E False model_path = Inr s" "self w = s" for s
    using that a by (intro predict_demo_mode) auto
  from a b c show ?thesis by blast
qed

text \<open>
  C10, where the code departs from it. When TensorFlow is not installed and the console
  cannot encode the emoji, the \<open>print\<close> of line 28, in the handler of the import,
  raises \<open>UnicodeEncodeError\<close>: the import of the module fails and no predictor is
  constructed at the start; \<open>__init__\<close> itself raises at line 95. On the console that
  accepts every message the start ends with the predictor without a model, and with
  TensorFlow installed it ends with the model loaded.
\<close>

theorem import_fails_on_narrow_console:
  "import_tensorflow (demo_env False) = Some ModuleNotFoundError \<and>
   load_module (demo_env False\<lparr>py_print := narrow_console\<rparr>) = Inl UnicodeEncodeError \<and>
   startup (demo_env False\<lparr>py_print := narrow_console\<rparr>) (Some ''model.h5'')
     = Inl UnicodeEncodeError \<and>
   init (demo_env False\<lparr>py_print := narrow_console\<rparr>) False (Some ''model.h5'')
     = Inl UnicodeEncodeError \<and>
   startup (demo_env False) (Some ''model.h5'') = Inr demo_mode \<and>
   startup (demo_env True) (Some ''model.h5'') = Inr with_model"
  by (simp add: startup_def load_module_def isinstance_ImportError_def init_def
      load_model_def load_model_try_def printing_def narrow_console_def
      os_path_exists_def os_path_getsize_def demo_env_def demo_stat_def demo_load_def
      demo_mode_def with_model_def)

subsection \<open>The class index of a prediction\<close>

lemma argmax_scan_invariant:
  assumes "i = length pre" and "max_ind < i" and "mp = (pre @ xs) ! max_ind"
    and "\<forall>j<i. (pre @ xs) ! j \<le> mp" and "\<forall>j<max_ind. (pre @ xs) ! j < mp"
  shows "first_max (pre @ xs) (argmax_scan xs i mp max_ind)"
  using assms
proof (induction xs arbitrary: pre i mp max_ind)
  case Nil
  then show ?case by (simp add: first_max_def)
next
  case (Cons x xs)
  have nth_i: "(pre @ x # xs) ! i = x" using Cons.prems(1) by simp
  show ?case
  proof (cases "mp < x")
    case True
    have "first_max ((pre @ [x]) @ xs) (argmax_scan xs (Suc i) x i)"
    proof (rule Cons.IH)
      show "Suc i = length (pre @ [x])" using Cons.prems(1) by simp
      show "i < Suc i" by simp
      show "x = ((pre @ [x]) @ xs) ! i" using nth_i by simp
      show "\<forall>j<Suc i. ((pre @ [x]) @ xs) ! j \<le> x"
      proof (intro allI impI)
        fix j assume "j < Suc i"
        then consider "j < i" | "j = i" by linarith
        then show "((pre @ [x]) @ xs) ! j \<le> x"
        proof cases
          case 1
          with Cons.prems(4) have "(pre @ x # xs) ! j \<le> mp" by simp
          with True show ?thesis by simp
        next
          case 2
          with nth_i show ?thesis by simp
        qed
      qed
      show "\<forall>j<i. ((pre @ [x]) @ xs) ! j < x"
      proof (intro allI impI)
        fix j assume "j < i"
        with Cons.prems(4) have "(pre @ x # xs) ! j \<le> mp" by simp
        with True show "((pre @ [x]) @ xs) ! j < x" by simp
      qed
    qed
    with True show ?thesis by simp
  next
    case False
    have "first_max ((pre @ [x]) @ xs) (argmax_scan xs (Suc i) mp max_ind)"
    proof (rule Cons.IH)
      show "Suc i = length (pre @ [x])" using Cons.prems(1) by simp
      show "max_ind < Suc i" using Cons.prems(2) by simp
      show "mp = ((pre @ [x]) @ xs) ! max_ind" using Cons.prems(3) by simp
      show "\<forall>j<Suc i. ((pre @ [x]) @ xs) ! j \<le> mp"
      proof (intro allI impI)
        fix j assume "j < Suc i"
        then consider "j < i" | "j = i" by linarith
        then show "((pre @ [x]) @ xs) ! j \<le> mp"
        proof cases
          case 1
          with Cons.prems(4) show ?thesis by simp
        next
          case 2
          with nth_i False show ?thesis by simp
        qed
      qed
      show "\<forall>j<max_ind. ((pre @ [x]) @ xs) ! j < mp" using Cons.prems(5) by simp
    qed
    with False show ?thesis by simp
  qed
qed

lemma np_argmax_first_max:
  assumes "np_argmax xs = Inr k"
  shows "first_max xs k"
proof (cases xs)
  case Nil
  with assms show ?thesis by (simp add: np_argmax_def)
next
  case (Cons x rest)
  have "first_max ([x] @ rest) (argmax_scan rest 1 x 0)"
    by (rule argmax_scan_invariant) simp_all
  with assms Cons show ?thesis by (simp add: np_argmax_def)
qed

lemma np_argmax_nonempty: "xs \<noteq> [] \<Longrightarrow> \<exists>k. np_argmax xs = Inr k"
  by (cases xs) (simp_all add: np_argmax_def)

lemma first_max_unique:
  assumes "first_max xs i" and "first_max xs j"
  shows "i = j"
proof (rule ccontr)
  assume "i \<noteq> j"
  then consider "i < j" | "j < i" by linarith
  then show False
  proof cases
    case 1
    with assms(2) have "xs ! i < xs ! j" by (simp add: first_max_def)
    moreover from assms have "xs ! j \<le> xs ! i" by (simp add: first_max_def)
    ultimately show False by simp
  next
    case 2
    with assms(1) have "xs ! j < xs ! i" by (simp add: first_max_def)
    moreover from assms have "xs ! i \<le> xs ! j" by (simp add: first_max_def)
    ultimately show False by simp
  qed
qed

lemma build_result_fields:
  assumes "build_result cid conf = Inr r"
  shows "category_id r = cid \<and> confidence r = py_round1 conf \<and> cid \<in> dom WASTE_CATEGORIES"
  using assms
  by (auto simp: build_result_def dict_getitem_def split: option.splits)

lemma real_prediction_argmax:
  assumes "preprocess_image E s p = Inr x"
    and "model_predict E m x = Inr (probabilities # rest)"
    and "probabilities \<noteq> []"
  shows "\<exists>k. first_max probabilities k \<and>
    real_prediction E s m p = Inr (int k, scalar_times_int E (probabilities ! k) 100)"
proof -
  from assms(3) obtain k where k: "np_argmax probabilities = Inr k"
    using np_argmax_nonempty by blast
  then have fm: "first_max probabilities k" by (rule np_argmax_first_max)
  then have "k < length probabilities" by (simp add: first_max_def)
  with assms(1,2) k
  have "real_prediction E s m p = Inr (int k, scalar_times_int E (probabilities ! k) 100)"
    by (simp add: real_prediction_def seq_getitem_def)
  with fm show ?thesis by blast
qed

lemma preprocess_image_opened:
  "Image_open E p = Inr im \<Longrightarrow> \<exists>x. preprocess_image E s p = Inr x"
  by (simp add: preprocess_image_def Let_def)

lemma preprocess_image_error:
  "preprocess_image E s p = Inl e \<longleftrightarrow> Image_open E p = Inl e"
  by (simp add: preprocess_image_def Let_def split: sum.splits)

subsection \<open>The range of a result\<close>

lemma sum_list_nonneg_rat: "\<forall>x \<in> set xs. (0::rat) \<le> x \<Longrightarrow> 0 \<le> sum_list xs"
  by (induction xs) auto

lemma member_le_sum_list_rat:
  "\<forall>x \<in> set xs. (0::rat) \<le> x \<Longrightarrow> p \<in> set xs \<Longrightarrow> p \<le> sum_list xs"
proof (induction xs)
  case Nil
  then show ?case by simp
next
  case (Cons a xs)
  then have s: "0 \<le> sum_list xs" and a: "0 \<le> a" by (simp_all add: sum_list_nonneg_rat)
  show ?case
  proof (cases "p = a")
    case True
    with s show ?thesis by simp
  next
    case False
    with Cons have "p \<le> sum_list xs" by simp
    with a show ?thesis by simp
  qed
qed

lemma probability_in_range:
  assumes "probability_vector v" and "k < length v"
  shows "is_float32 (v ! k) \<and> 0 \<le> v ! k \<and> v ! k \<le> 1 + 1 / 2000"
proof -
  from assms have mem: "v ! k \<in> set v" by simp
  from assms(1) have each: "\<forall>x \<in> set v. is_float32 x \<and> 0 \<le> x"
    and near: "\<bar>sum_list v - 1\<bar> \<le> 1 / 2000"
    by (simp_all add: probability_vector_def)
  from each have nonneg: "\<forall>x \<in> set v. 0 \<le> x" by blast
  from near have sum: "sum_list v \<le> 1 + 1 / 2000" by linarith
  from nonneg mem have "v ! k \<le> sum_list v" by (rule member_le_sum_list_rat)
  with sum have "v ! k \<le> 1 + 1 / 2000" by simp
  with each mem show ?thesis by blast
qed

lemma real_prediction_range:
  assumes "real_prediction E s m p = Inr (cid, conf)" and "model_ok E"
  shows "0 \<le> conf \<and> conf \<le> 100 + 1 / 20"
proof -
  from assms(1) obtain x predictions row k q
    where mp: "model_predict E m x = Inr predictions"
      and r: "seq_getitem predictions 0 = Inr row"
      and g: "seq_getitem row k = Inr q"
      and c: "conf = scalar_times_int E q 100"
    by (auto simp: real_prediction_def split: sum.splits)
  from r obtain rest where "predictions = row # rest"
    by (cases predictions) (auto simp: seq_getitem_def)
  with mp assms(2) have pv: "probability_vector row" by (auto simp: model_ok_def)
  from g have k: "k < length row" and q: "row ! k = q"
    by (auto simp: seq_getitem_def split: if_splits)
  from probability_in_range [OF pv k] q
  have "is_float32 q" "0 \<le> q" "q \<le> 1 + 1 / 2000" by simp_all
  then show ?thesis unfolding c by (rule scalar_times_int_percent)
qed

lemma build_result_in_range:
  assumes "0 \<le> cid" and "cid < 6"
  shows "\<exists>r. build_result cid conf = Inr r"
proof -
  from assms have "cid \<in> dom WASTE_CATEGORIES" by (simp add: dom_WASTE_CATEGORIES)
  then show ?thesis by (auto simp: build_result_def dict_getitem_def)
qed

text \<open>
  C2. With a model loaded, when preprocessing succeeds and the model returns the
  probability vector \<open>probabilities\<close> for the image, \<open>predict\<close> returns a result whose
  \<open>category_id\<close> is the index \<open>k\<close> of the first greatest element of that vector
  (ties go to the lowest index). Its \<open>confidence\<close> is the product
  \<open>probabilities[k] * 100\<close> as numpy computes it, rounded to one decimal place: the
  whole number of tenths nearest to that product, the even one at a tie. Where numpy
  keeps float32 the product is the exact one rounded to float32, a float32 value within
  \<open>2\<^sup>-\<^sup>1\<^sup>8\<close> of it; where numpy promotes to float64 the product is exact.
\<close>

theorem loaded_prediction_is_argmax:
  assumes "model_loaded (self w)" and "model (self w) = Some m"
    and "preprocess_image E (self w) image_path = Inr x"
    and "model_predict E m x = Inr (probabilities # rest)"
    and "probability_vector probabilities"
  shows "\<exists>k r. first_max probabilities k \<and>
    predict E w image_path = (Inr r, w) \<and> category_id r = int k \<and>
    confidence r = py_round1 (scalar_times_int E (probabilities ! k) 100) \<and>
    nearest_tenth (scalar_times_int E (probabilities ! k) 100) (confidence r) \<and>
    (numpy_keeps_float32 E \<longrightarrow>
       scalar_times_int E (probabilities ! k) 100 = float32_round (probabilities ! k * 100) \<and>
       float32_value (scalar_times_int E (probabilities ! k) 100) \<and>
       \<bar>scalar_times_int E (probabilities ! k) 100 - probabilities ! k * 100\<bar> \<le> 2 powi (- 18)) \<and>
    (\<not> numpy_keeps_float32 E \<longrightarrow>
       scalar_times_int E (probabilities ! k) 100 = probabilities ! k * 100)"
proof -
  from assms(5) have len: "length probabilities = 6"
    by (simp add: probability_vector_def len_WASTE_CATEGORIES_6)
  then have "probabilities \<noteq> []" by auto
  from real_prediction_argmax [OF assms(3,4) this] obtain k
    where fm: "first_max probabilities k"
      and rp: "real_prediction E (self w) m image_path
        = Inr (int k, scalar_times_int E (probabilities ! k) 100)"
    by blast
  let ?c = "scalar_times_int E (probabilities ! k) 100"
  from fm have k: "k < length probabilities" by (simp add: first_max_def)
  with len have "0 \<le> int k" "int k < 6" by simp_all
  then obtain r where b: "build_result (int k) ?c = Inr r"
    using build_result_in_range by blast
  from assms(1,2) rp b have p: "predict E w image_path = (Inr r, w)"
    by (simp add: predict_def)
  from build_result_fields [OF b]
  have f: "category_id r = int k" "confidence r = py_round1 ?c" by simp_all
  from probability_in_range [OF assms(5) k]
  have fl: "is_float32 (probabilities ! k)"
    and range: "0 \<le> probabilities ! k" "probabilities ! k \<le> 1 + 1 / 2000" by simp_all
  have n2: "?c = float32_round (probabilities ! k * 100) \<and> float32_value ?c \<and>
      \<bar>?c - probabilities ! k * 100\<bar> \<le> 2 powi (- 18)"
    if "numpy_keeps_float32 E"
  proof -
    from that have c: "?c = np_multiply32 (probabilities ! k) 100"
      by (simp add: scalar_times_int_def)
    from range have "float32_value (np_multiply32 (probabilities ! k) 100)"
      by (rule np_multiply32_percent_value)
    moreover from range
    have "\<bar>np_multiply32 (probabilities ! k) 100 - probabilities ! k * 100\<bar> \<le> 2 powi (- 18)"
      by (rule np_multiply32_percent_error)
    ultimately show ?thesis unfolding c by (simp add: np_multiply32_def)
  qed
  have n1: "?c = probabilities ! k * 100" if "\<not> numpy_keeps_float32 E"
  proof -
    from that have "?c = np_multiply64 (probabilities ! k) 100"
      by (simp add: scalar_times_int_def)
    also from fl have "\<dots> = probabilities ! k * 100"
      unfolding np_multiply64_def by (rule float64_round_percent_exact)
    finally show ?thesis .
  qed
  have nt: "nearest_tenth ?c (confidence r)"
    unfolding f(2) by (rule py_round1_nearest_tenth)
  from fm p f nt n1 n2 show ?thesis by blast
qed

lemma demo_prediction_range:
  assumes "random_ok E" and "demo_prediction E g = ((cid, conf), g')"
  shows "0 \<le> cid \<and> cid < len_WASTE_CATEGORIES \<and> 85 \<le> conf \<and> conf \<le> 99"
proof -
  obtain c g1 where c: "randint E g 0 len_WASTE_CATEGORIES = (c, g1)" by fastforce
  obtain u g2 where u: "uniform E g1 85 99 = (u, g2)" by fastforce
  from assms(2) c u have eq: "cid = c" "conf = u" by (simp_all add: demo_prediction_def)
  from assms(1) have "0 \<le> fst (randint E g 0 len_WASTE_CATEGORIES) \<and>
      fst (randint E g 0 len_WASTE_CATEGORIES) < len_WASTE_CATEGORIES"
    unfolding random_ok_def using len_WASTE_CATEGORIES_6 by simp
  moreover from assms(1) have "85 \<le> fst (uniform E g1 85 99) \<and> fst (uniform E g1 85 99) \<le> 99"
    unfolding random_ok_def by simp
  ultimately show ?thesis using c u eq by simp
qed

text \<open>
  C1. Let the random source keep to its documented ranges and let every vector the
  model returns be a vector of six float32 probabilities, none negative, with a sum within
  \<open>1/2000\<close> of one. Then every result that \<open>predict\<close> returns, with or without a
  model, has a \<open>category_id\<close> that is a key of the category table, that is an integer
  in \<open>[0, 6)\<close>, and a \<open>confidence\<close> in \<open>[0, 100]\<close> that is a whole number of
  tenths.
\<close>

theorem predict_result_valid:
  assumes "fst (predict E w image_path) = Inr r" and "random_ok E" and "model_ok E"
  shows "category_id r \<in> dom WASTE_CATEGORIES \<and>
    0 \<le> category_id r \<and> category_id r < len_WASTE_CATEGORIES \<and>
    0 \<le> confidence r \<and> confidence r \<le> 100 \<and> (\<exists>k::int. confidence r = of_int k / 10)"
proof -
  from assms(1) obtain cid conf
    where b: "build_result cid conf = Inr r"
      and range: "0 \<le> conf \<and> conf \<le> 100 + 1 / 20"
  proof (cases "model_loaded (self w) \<and> model (self w) \<noteq> None")
    case True
    with assms(1) obtain cid conf
      where rp: "real_prediction E (self w) (the (model (self w))) image_path = Inr (cid, conf)"
        and b: "build_result cid conf = Inr r"
      by (auto simp: predict_def split: sum.splits)
    from real_prediction_range [OF rp assms(3)] b that show ?thesis by blast
  next
    case False
    obtain cid conf g' where d: "demo_prediction E (rng w) = ((cid, conf), g')"
      by (metis prod.exhaust)
    with predict_demo_mode [OF False, of E image_path] assms(1)
    have b: "build_result cid conf = Inr r"
      by simp
    from demo_prediction_range [OF assms(2) d] have "0 \<le> conf \<and> conf \<le> 100 + 1 / 20"
      by simp
    with b that show ?thesis by blast
  qed
  from build_result_fields [OF b]
  have f: "category_id r = cid" "confidence r = py_round1 conf" "cid \<in> dom WASTE_CATEGORIES"
    by simp_all
  from f(3) have "0 \<le> cid \<and> cid < len_WASTE_CATEGORIES"
    by (simp add: dom_WASTE_CATEGORIES len_WASTE_CATEGORIES_6)
  moreover from range have "0 \<le> py_round1 conf \<and> py_round1 conf \<le> 100"
    by (intro py_round1_percent) simp_all
  ultimately show ?thesis using f py_round1_tenths [of conf] by simp
qed

text \<open>
  C7. Without a model, \<open>predict\<close> returns the two draws it makes: \<open>category_id\<close> is
  the outcome of \<open>randint(0, 6)\<close>, an integer in \<open>[0, 5]\<close>, whichever it is, and
  \<open>confidence\<close> is the outcome of \<open>uniform(85, 99)\<close>, a number in \<open>[85, 99]\<close>,
  rounded to one decimal place, which is again in \<open>[85, 99]\<close>. The call always
  succeeds. How the outcomes are distributed is the generator's matter.
\<close>

theorem fallback_prediction:
  assumes "\<not> (model_loaded (self w) \<and> model (self w) \<noteq> None)" and "random_ok E"
  shows "\<exists>cid g1 u g2 r.
    randint E (rng w) 0 len_WASTE_CATEGORIES = (cid, g1) \<and> uniform E g1 85 99 = (u, g2) \<and>
    0 \<le> cid \<and> cid \<le> len_WASTE_CATEGORIES - 1 \<and> 85 \<le> u \<and> u \<le> 99 \<and>
    predict E w image_path = (Inr r, w\<lparr>rng := g2\<rparr>) \<and>
    category_id r = cid \<and> confidence r = py_round1 u \<and>
    85 \<le> confidence r \<and> confidence r \<le> 99"
proof -
  obtain cid g1 where c: "randint E (rng w) 0 len_WASTE_CATEGORIES = (cid, g1)" by fastforce
  obtain u g2 where u: "uniform E g1 85 99 = (u, g2)" by fastforce
  from c u have d: "demo_prediction E (rng w) = ((cid, u), g2)"
    by (simp add: demo_prediction_def)
  from demo_prediction_range [OF assms(2) d]
  have range: "0 \<le> cid" "cid < len_WASTE_CATEGORIES" "85 \<le> u" "u \<le> 99" by simp_all
  from range(1,2) have "cid \<in> dom WASTE_CATEGORIES"
    by (simp add: dom_WASTE_CATEGORIES len_WASTE_CATEGORIES_6)
  then obtain r where b: "build_result cid u = Inr r"
    by (auto simp: build_result_def dict_getitem_def)
  from predict_demo_mode [OF assms(1), of E image_path] d b
  have p: "predict E w image_path = (Inr r, w\<lparr>rng := g2\<rparr>)" by simp
  from build_result_fields [OF b]
  have f: "category_id r = cid" "confidence r = py_round1 u" by simp_all
  from range(3,4) have "of_int 85 \<le> py_round1 u \<and> py_round1 u \<le> of_int 99"
    by (intro py_round1_bounds) simp_all
  with c u range p f show ?thesis by auto
qed

text \<open>
  C6, as amended. With a model loaded, when \<open>preprocess_image\<close> raises \<open>e\<close> on the
  path, which is the exception \<open>Image.open\<close> raised, \<open>predict\<close> raises the same
  \<open>e\<close>: no result is returned and nothing is changed. (Without a model \<open>predict\<close>
  never opens the image.)
\<close>

theorem preprocess_error_propagates:
  assumes "model_loaded (self w)" and "model (self w) = Some m"
    and "preprocess_image E (self w) image_path = Inl e"
  shows "predict E w image_path = (Inl e, w) \<and> Image_open E image_path = Inl e"
  using assms preprocess_image_error [of E "self w" image_path e]
  by (simp add: predict_def real_prediction_def)

subsection \<open>What a prediction changes\<close>

lemma predict_self: "self (snd (predict E w p)) = self w"
  by (simp add: predict_def split: sum.splits prod.splits)

lemma predict_batch_self: "self (snd (predict_batch E w ps)) = self w"
proof (induction ps arbitrary: w)
  case Nil
  then show ?case by simp
next
  case (Cons p ps)
  obtain a w' where p: "predict E w p = (a, w')" by fastforce
  with predict_self [of E w p] have s: "self w' = self w" by simp
  show ?case
  proof (cases a)
    case (Inl e)
    with p s show ?thesis by simp
  next
    case (Inr r)
    obtain b w'' where b: "predict_batch E w' ps = (b, w'')" by fastforce
    with Cons.IH [of w'] s have "self w'' = self w" by simp
    with p Inr b show ?thesis by (cases b) simp_all
  qed
qed

text \<open>
  C9. \<open>predict\<close> and \<open>predict_batch\<close> leave the predictor as it was, whether they
  return a result or raise: \<open>model\<close>, \<open>model_loaded\<close> and \<open>img_size\<close> are
  unchanged. (Only the random generator moves on.)
\<close>

theorem predictor_read_only:
  "self (snd (predict E w image_path)) = self w \<and>
   self (snd (predict_batch E w image_paths)) = self w \<and>
   model (self (snd (predict E w image_path))) = model (self w) \<and>
   model_loaded (self (snd (predict E w image_path))) = model_loaded (self w) \<and>
   img_size (self (snd (predict E w image_path))) = img_size (self w) \<and>
   model (self (snd (predict_batch E w image_paths))) = model (self w) \<and>
   model_loaded (self (snd (predict_batch E w image_paths))) = model_loaded (self w) \<and>
   img_size (self (snd (predict_batch E w image_paths))) = img_size (self w)"
  by (simp add: predict_self predict_batch_self)

subsection \<open>The concrete environment evaluated\<close>

lemma demo_random_ok: "random_ok (demo_env tf)"
proof -
  have r: "lo \<le> lo + int n mod (hi - lo) \<and> lo + int n mod (hi - lo) < hi"
    if "lo < hi" for lo hi :: int and n :: nat
    using that pos_mod_sign [of "hi - lo" "int n"] pos_mod_bound [of "hi - lo" "int n"]
    by linarith
  have u: "lo \<le> lo + (hi - lo) * (of_nat (n mod 1000) / 1000) \<and>
      lo + (hi - lo) * (of_nat (n mod 1000) / 1000) \<le> hi"
    if "lo \<le> hi" for lo hi :: rat and n :: nat
  proof -
    let ?t = "of_nat (n mod 1000) / 1000 :: rat"
    have "n mod 1000 < 1000" by simp
    then have "(of_nat (n mod 1000) :: rat) \<le> 1000"
      by (metis less_imp_le of_nat_le_iff of_nat_numeral)
    then have t: "0 \<le> ?t" "?t \<le> 1" by simp_all
    from that have d: "0 \<le> hi - lo" by simp
    from d t(1) have "0 \<le> (hi - lo) * ?t" by (rule mult_nonneg_nonneg)
    moreover from t(2) d have "(hi - lo) * ?t \<le> hi - lo" by (rule mult_left_le)
    ultimately show ?thesis by linarith
  qed
  have "lo \<le> fst (randint (demo_env tf) g lo hi) \<and> fst (randint (demo_env tf) g lo hi) < hi"
    if "lo < hi" for g lo hi
    using r [OF that] by (simp add: demo_env_def demo_randint_def)
  moreover
  have "lo \<le> fst (uniform (demo_env tf) g lo hi) \<and> fst (uniform (demo_env tf) g lo hi) \<le> hi"
    if "lo \<le> hi" for g lo hi
    using u [OF that] by (simp add: demo_env_def demo_uniform_def)
  ultimately show ?thesis
    unfolding random_ok_def by blast
qed

lemma demo_float32:
  "is_float32 0" "is_float32 (13421773 / 134217728)" "is_float32 (13421773 / 33554432)"
  "is_float32 (30933 / 1048576)" "is_float32 (1017643 / 1048576)"
  by code_simp+

lemma demo_row_tied_ok: "probability_vector demo_row_tied"
  by (simp add: probability_vector_def demo_row_tied_def len_WASTE_CATEGORIES_6 demo_float32)

lemma demo_row_sharp_ok: "probability_vector demo_row_sharp"
  by (simp add: probability_vector_def demo_row_sharp_def len_WASTE_CATEGORIES_6 demo_float32)

lemma demo_model_ok: "model_ok (demo_env tf)"
  by (auto simp: model_ok_def demo_env_def demo_infer_def demo_row_tied_ok demo_row_sharp_ok
      split: if_splits)

lemma first_max_demo: "first_max demo_row_tied (Suc 0)"
  by (auto simp: first_max_def demo_row_tied_def nth_Cons' less_Suc_eq eval_nat_numeral)

lemma first_max_demo_sharp: "first_max demo_row_sharp (Suc 0)"
  by (auto simp: first_max_def demo_row_sharp_def nth_Cons' less_Suc_eq eval_nat_numeral)

lemma demo_scalar_times_int:
  "scalar_times_int (demo_env tf) p n = np_multiply32 p (of_int n)"
  by (simp add: scalar_times_int_def demo_env_def)

lemma demo_products:
  "np_multiply32 (13421773 / 33554432) 100 = 40"
  "py_round1 (np_multiply32 (1017643 / 1048576) 100) = 971 / 10"
  "py_round1 (1017643 / 1048576 * 100) = 97"
  by code_simp+

lemma demo_red_prediction:
  "\<exists>r. predict (demo_env tf) \<lparr>self = with_model, rng = g\<rparr> ''red.png''
     = (Inr r, \<lparr>self = with_model, rng = g\<rparr>) \<and> category_id r = 1 \<and> confidence r = 40"
proof -
  let ?E = "demo_env tf"
  let ?v = "demo_row_tied"
  have "Image_open ?E ''red.png'' = Inr (solid_image ''RGB'' 2 [255, 0, 0])"
    by (simp add: demo_env_def demo_open_def)
  then obtain x where x: "preprocess_image ?E with_model ''red.png'' = Inr x"
    using preprocess_image_opened by fastforce
  have m: "model_predict ?E 0 x = Inr (?v # [])"
    by (simp add: demo_env_def demo_infer_def)
  have ne: "?v \<noteq> []" by (simp add: demo_row_tied_def)
  from real_prediction_argmax [OF x m ne]
  obtain k where k: "first_max ?v k"
    and p: "real_prediction ?E with_model 0 ''red.png''
      = Inr (int k, scalar_times_int ?E (?v ! k) 100)"
    by blast
  from k first_max_demo have "k = Suc 0" by (rule first_max_unique)
  with p have "real_prediction ?E with_model 0 ''red.png'' = Inr (1, 40)"
    by (simp add: demo_row_tied_def demo_products demo_scalar_times_int)
  then have "predict ?E \<lparr>self = with_model, rng = g\<rparr> ''red.png''
      = (build_result 1 40, \<lparr>self = with_model, rng = g\<rparr>)"
    by (simp add: predict_def with_model_def)
  moreover have "\<exists>r. build_result 1 40 = Inr r \<and> category_id r = 1 \<and> confidence r = 40"
    apply (simp add: build_result_def dict_getitem_def WASTE_CATEGORIES_def
        WASTE_CATEGORIES_items_def)
    apply code_simp
    done
  ultimately show ?thesis by auto
qed

lemma demo_draws:
  "demo_prediction (demo_env tf) [4, 500] = ((4, 92), [])"
  by (simp add: demo_prediction_def demo_env_def demo_randint_def demo_uniform_def
      len_WASTE_CATEGORIES_6)

lemma py_round1_92: "py_round1 92 = 92"
  by code_simp

lemma demo_random_prediction:
  "\<exists>r. predict (demo_env tf) \<lparr>self = demo_mode, rng = [4, 500]\<rparr> p
     = (Inr r, \<lparr>self = demo_mode, rng = []\<rparr>) \<and> category_id r = 4 \<and> confidence r = 92"
proof -
  have "\<exists>r. build_result 4 92 = Inr r \<and> category_id r = 4 \<and> confidence r = 92"
    by (simp add: build_result_def dict_getitem_def WASTE_CATEGORIES_def
        WASTE_CATEGORIES_items_def py_round1_92)
  then show ?thesis
    by (simp add: predict_def demo_mode_def demo_draws)
qed

lemma py_round1_40: "py_round1 40 = 40"
  by code_simp

theorem loaded_prediction_is_argmax_witness:
  "model_loaded with_sharp_model \<and> model with_sharp_model = Some 1 \<and>
   probability_vector demo_row_sharp \<and> probability_vector demo_row_tied \<and>
   (\<exists>x. preprocess_image (demo_env True) with_sharp_model ''red.png'' = Inr x \<and>
        model_predict (demo_env True) 1 x = Inr [demo_row_sharp]) \<and>
   (\<exists>r. predict (demo_env True) \<lparr>self = with_sharp_model, rng = []\<rparr> ''red.png''
          = (Inr r, \<lparr>self = with_sharp_model, rng = []\<rparr>) \<and>
        category_id r = 1 \<and> confidence r = 971 / 10) \<and>
   (\<exists>r. predict (demo_env True\<lparr>numpy_keeps_float32 := False\<rparr>)
            \<lparr>self = with_sharp_model, rng = []\<rparr> ''red.png''
          = (Inr r, \<lparr>self = with_sharp_model, rng = []\<rparr>) \<and>
        category_id r = 1 \<and> confidence r = 97) \<and>
   (\<exists>r. predict (demo_env True) \<lparr>self = with_model, rng = []\<rparr> ''red.png''
          = (Inr r, \<lparr>self = with_model, rng = []\<rparr>) \<and>
        category_id r = 1 \<and> confidence r = 40)"
proof -
  let ?E = "demo_env True"
  let ?F = "demo_env True\<lparr>numpy_keeps_float32 := False\<rparr>"
  let ?w = "\<lparr>self = with_sharp_model, rng = []\<rparr> :: (nat, nat list) world"
  let ?u = "\<lparr>self = with_model, rng = []\<rparr> :: (nat, nat list) world"
  have o: "Image_open ?E ''red.png'' = Inr (solid_image ''RGB'' 2 [255, 0, 0])"
    by (simp add: demo_env_def demo_open_def)
  then obtain x where x: "preprocess_image ?E (self ?w) ''red.png'' = Inr x"
    using preprocess_image_opened by fastforce
  from o obtain y where y: "preprocess_image ?E (self ?u) ''red.png'' = Inr y"
    using preprocess_image_opened by fastforce
  have "Image_open ?F ''red.png'' = Inr (solid_image ''RGB'' 2 [255, 0, 0])"
    by (simp add: demo_env_def demo_open_def)
  then obtain z where z: "preprocess_image ?F (self ?w) ''red.png'' = Inr z"
    using preprocess_image_opened by fastforce
  have m: "model_predict ?E 1 x = Inr (demo_row_sharp # [])"
    by (simp add: demo_env_def demo_infer_def)
  have n: "model_predict ?E 0 y = Inr (demo_row_tied # [])"
    by (simp add: demo_env_def demo_infer_def)
  have h: "model_predict ?F 1 z = Inr (demo_row_sharp # [])"
    by (simp add: demo_env_def demo_infer_def)
  have keeps: "numpy_keeps_float32 ?E" "\<not> numpy_keeps_float32 ?F"
    by (simp_all add: demo_env_def)
  have l: "model_loaded (self ?w)" "model (self ?w) = Some 1"
    by (simp_all add: with_sharp_model_def)
  have l': "model_loaded (self ?u)" "model (self ?u) = Some 0"
    by (simp_all add: with_model_def)
  from loaded_prediction_is_argmax [OF l x m demo_row_sharp_ok] keeps(1)
  obtain k r where k: "first_max demo_row_sharp k"
    and p: "predict ?E ?w ''red.png'' = (Inr r, ?w)"
    and c: "category_id r = int k"
      "confidence r = py_round1 (scalar_times_int ?E (demo_row_sharp ! k) 100)"
      "scalar_times_int ?E (demo_row_sharp ! k) 100 = float32_round (demo_row_sharp ! k * 100)"
    by blast
  from k first_max_demo_sharp have "k = Suc 0" by (rule first_max_unique)
  with c have r: "category_id r = 1" "confidence r = 971 / 10"
    using demo_products(2) by (simp_all add: demo_row_sharp_def np_multiply32_def)
  from loaded_prediction_is_argmax [OF l z h demo_row_sharp_ok] keeps(2)
  obtain i v where i: "first_max demo_row_sharp i"
    and pf: "predict ?F ?w ''red.png'' = (Inr v, ?w)"
    and cf: "category_id v = int i"
      "confidence v = py_round1 (scalar_times_int ?F (demo_row_sharp ! i) 100)"
      "scalar_times_int ?F (demo_row_sharp ! i) 100 = demo_row_sharp ! i * 100"
    by blast
  from i first_max_demo_sharp have i1: "i = Suc 0" by (rule first_max_unique)
  have e1: "demo_row_sharp ! Suc 0 = 1017643 / 1048576" by (simp add: demo_row_sharp_def)
  from cf(2,3) have "confidence v = py_round1 (demo_row_sharp ! i * 100)" by (simp only:)
  then have "confidence v = 97" unfolding i1 e1 by (simp only: demo_products(3))
  with cf(1) i1 have v: "category_id v = 1" "confidence v = 97" by simp_all
  from loaded_prediction_is_argmax [OF l' y n demo_row_tied_ok] keeps(1)
  obtain j t where j: "first_max demo_row_tied j"
    and q: "predict ?E ?u ''red.png'' = (Inr t, ?u)"
    and d: "category_id t = int j"
      "confidence t = py_round1 (scalar_times_int ?E (demo_row_tied ! j) 100)"
      "scalar_times_int ?E (demo_row_tied ! j) 100 = float32_round (demo_row_tied ! j * 100)"
    by blast
  from j first_max_demo have "j = Suc 0" by (rule first_max_unique)
  with d have t: "category_id t = 1" "confidence t = 40"
    using demo_products(1) by (simp_all add: demo_row_tied_def np_multiply32_def py_round1_40)
  have s: "self ?w = with_sharp_model" by simp
  from x m have "\<exists>x. preprocess_image ?E with_sharp_model ''red.png'' = Inr x \<and>
      model_predict ?E 1 x = Inr [demo_row_sharp]"
    unfolding s by blast
  moreover from p r have "\<exists>r. predict ?E ?w ''red.png'' = (Inr r, ?w) \<and>
      category_id r = 1 \<and> confidence r = 971 / 10" by blast
  moreover from pf v have "\<exists>r. predict ?F ?w ''red.png'' = (Inr r, ?w) \<and>
      category_id r = 1 \<and> confidence r = 97" by blast
  moreover from q t have "\<exists>r. predict ?E ?u ''red.png'' = (Inr r, ?u) \<and>
      category_id r = 1 \<and> confidence r = 40" by blast
  ultimately show ?thesis
    using demo_row_sharp_ok demo_row_tied_ok l by (simp add: with_sharp_model_def)
qed

theorem predict_result_valid_witness:
  "random_ok (demo_env True) \<and> model_ok (demo_env True) \<and>
   (\<exists>r. fst (predict (demo_env True) \<lparr>self = with_model, rng = []\<rparr> ''red.png'') = Inr r \<and>
        category_id r = 1 \<and> confidence r = 40 \<and> category_id r \<in> dom WASTE_CATEGORIES) \<and>
   (\<exists>r. fst (predict (demo_env True) \<lparr>self = demo_mode, rng = [4, 500]\<rparr> ''red.png'') = Inr r \<and>
        category_id r = 4 \<and> confidence r = 92 \<and> category_id r \<in> dom WASTE_CATEGORIES)"
proof -
  let ?E = "demo_env True"
  from demo_red_prediction [of True "[]"] obtain r1
    where r1: "fst (predict ?E \<lparr>self = with_model, rng = []\<rparr> ''red.png'') = Inr r1"
      "category_id r1 = 1" "confidence r1 = 40"
    by auto
  from demo_random_prediction [of True "''red.png''"] obtain r2
    where r2: "fst (predict ?E \<lparr>self = demo_mode, rng = [4, 500]\<rparr> ''red.png'') = Inr r2"
      "category_id r2 = 4" "confidence r2 = 92"
    by auto
  from predict_result_valid [OF r1(1) demo_random_ok demo_model_ok]
  have "category_id r1 \<in> dom WASTE_CATEGORIES" by simp
  moreover from predict_result_valid [OF r2(1) demo_random_ok demo_model_ok]
  have "category_id r2 \<in> dom WASTE_CATEGORIES" by simp
  ultimately show ?thesis using r1 r2 demo_random_ok demo_model_ok by blast
qed

theorem fallback_prediction_witness:
  "\<not> (model_loaded demo_mode \<and> model demo_mode \<noteq> None) \<and> random_ok (demo_env False) \<and>
   (\<exists>r. predict (demo_env False) \<lparr>self = demo_mode, rng = [4, 500]\<rparr> ''red.png''
      = (Inr r, \<lparr>self = demo_mode, rng = []\<rparr>) \<and>
      category_id r = 4 \<and> confidence r = 92 \<and> 85 \<le> confidence r \<and> confidence r \<le> 99)"
proof -
  let ?E = "demo_env False"
  let ?w = "\<lparr>self = demo_mode, rng = [4, 500]\<rparr> :: (nat, nat list) world"
  have f: "\<not> (model_loaded (self ?w) \<and> model (self ?w) \<noteq> None)"
    by (simp add: demo_mode_def)
  from fallback_prediction [OF f demo_random_ok [of False], where image_path = "''red.png''"]
  obtain cid g1 u g2 r
    where c: "randint ?E (rng ?w) 0 len_WASTE_CATEGORIES = (cid, g1)"
      and u: "uniform ?E g1 85 99 = (u, g2)"
      and p: "predict ?E ?w ''red.png'' = (Inr r, ?w\<lparr>rng := g2\<rparr>)"
      and r: "category_id r = cid" "confidence r = py_round1 u"
        "85 \<le> confidence r" "confidence r \<le> 99"
    by blast
  from c have cid: "cid = 4" "g1 = [500]"
    by (simp_all add: demo_env_def demo_randint_def len_WASTE_CATEGORIES_6)
  with u have uu: "u = 92" "g2 = []"
    by (simp_all add: demo_env_def demo_uniform_def)
  from p r cid uu f demo_random_ok [of False] show ?thesis
    by (simp add: py_round1_92 demo_mode_def)
qed

text \<open>
  C6 as it was stated fails without a model: the path below does not decode, so
  preprocessing it raises, and \<open>predict\<close> returns a result all the same.
\<close>

theorem fallback_ignores_decode_error:
  "preprocess_image (demo_env True) demo_mode ''notes.txt'' = Inl UnidentifiedImageError \<and>
   (\<exists>r. fst (predict (demo_env True) \<lparr>self = demo_mode, rng = [4, 500]\<rparr> ''notes.txt'') = Inr r \<and>
        category_id r = 4 \<and> confidence r = 92)"
proof -
  have "preprocess_image (demo_env True) demo_mode ''notes.txt'' = Inl UnidentifiedImageError"
    by (simp add: preprocess_image_error demo_env_def demo_open_def)
  moreover from demo_random_prediction [of True "''notes.txt''"]
  have "\<exists>r. fst (predict (demo_env True) \<lparr>self = demo_mode, rng = [4, 500]\<rparr> ''notes.txt'') = Inr r \<and>
        category_id r = 4 \<and> confidence r = 92"
    by auto
  ultimately show ?thesis by blast
qed

theorem preprocess_error_propagates_witness:
  "model_loaded with_model \<and> model with_model = Some 0 \<and>
   preprocess_image (demo_env True) with_model ''notes.txt'' = Inl UnidentifiedImageError \<and>
   predict (demo_env True) \<lparr>self = with_model, rng = [4, 500]\<rparr> ''notes.txt''
     = (Inl UnidentifiedImageError, \<lparr>self = with_model, rng = [4, 500]\<rparr>)"
proof -
  let ?w = "\<lparr>self = with_model, rng = [4, 500]\<rparr> :: (nat, nat list) world"
  have l: "model_loaded (self ?w)" "model (self ?w) = Some 0"
    by (simp_all add: with_model_def)
  have e: "preprocess_image (demo_env True) (self ?w) ''notes.txt'' = Inl UnidentifiedImageError"
    by (simp add: preprocess_image_error demo_env_def demo_open_def)
  from preprocess_error_propagates [OF l e] l e show ?thesis by simp
qed

subsection \<open>Batches\<close>

lemma world_before_0: "world_before E w ps 0 = w"
  by (simp add: world_before_def)

lemma world_before_Suc:
  "world_before E w (p # ps) (Suc i) = world_before E (snd (predict E w p)) ps i"
  by (simp add: world_before_def)

lemma predict_batch_results:
  "fst (predict_batch E w ps) = Inr rs \<longleftrightarrow>
     length rs = length ps \<and>
     (\<forall>i<length ps. fst (predict E (world_before E w ps i) (ps ! i)) = Inr (rs ! i))"
proof (induction ps arbitrary: w rs)
  case Nil
  then show ?case by auto
next
  case (Cons p ps)
  obtain a w' where p: "predict E w p = (a, w')" by fastforce
  show ?case
  proof (cases a)
    case (Inl e)
    with p show ?thesis by (auto simp: world_before_0)
  next
    case (Inr r)
    obtain b w'' where b: "predict_batch E w' ps = (b, w'')" by fastforce
    show ?thesis
    proof (cases rs)
      case Nil
      with p Inr b show ?thesis by (cases b) auto
    next
      case (Cons x rs')
      from Cons.IH [of w' rs'] b
      have ih: "b = Inr rs' \<longleftrightarrow> length rs' = length ps \<and>
          (\<forall>i<length ps. fst (predict E (world_before E w' ps i) (ps ! i)) = Inr (rs' ! i))"
        by simp
      have "fst (predict_batch E w (p # ps)) = Inr rs \<longleftrightarrow> r = x \<and> b = Inr rs'"
        using p Inr b Cons by (cases b) auto
      also have "\<dots> \<longleftrightarrow> r = x \<and> length rs' = length ps \<and>
          (\<forall>i<length ps. fst (predict E (world_before E w' ps i) (ps ! i)) = Inr (rs' ! i))"
        using ih by simp
      also have "\<dots> \<longleftrightarrow> length rs = length (p # ps) \<and>
          (\<forall>i<length (p # ps).
             fst (predict E (world_before E w (p # ps) i) ((p # ps) ! i)) = Inr (rs ! i))"
        using p Inr Cons by (auto simp: All_less_Suc2 world_before_0 world_before_Suc)
      finally show ?thesis .
    qed
  qed
qed

lemma predict_batch_failure:
  "fst (predict_batch E w ps) = Inl e \<longleftrightarrow>
     (\<exists>i<length ps.
        (\<forall>j<i. \<exists>r. fst (predict E (world_before E w ps j) (ps ! j)) = Inr r) \<and>
        fst (predict E (world_before E w ps i) (ps ! i)) = Inl e)"
proof (induction ps arbitrary: w)
  case Nil
  then show ?case by simp
next
  case (Cons p ps)
  obtain a w' where p: "predict E w p = (a, w')" by fastforce
  let ?P = "\<lambda>w qs i. (\<forall>j<i. \<exists>r. fst (predict E (world_before E w qs j) (qs ! j)) = Inr r) \<and>
        fst (predict E (world_before E w qs i) (qs ! i)) = Inl e"
  have split: "(\<exists>i<length (p # ps). ?P w (p # ps) i) \<longleftrightarrow>
      ?P w (p # ps) 0 \<or> (\<exists>i<length ps. ?P w (p # ps) (Suc i))"
    by (simp add: Ex_less_Suc2)
  have zero: "?P w (p # ps) 0 \<longleftrightarrow> a = Inl e"
    using p by (simp add: world_before_0)
  have suc: "?P w (p # ps) (Suc i) \<longleftrightarrow> (\<exists>r. a = Inr r) \<and> ?P w' ps i" for i
    using p by (auto simp: All_less_Suc2 world_before_0 world_before_Suc)
  show ?case
  proof (cases a)
    case (Inl e')
    from Inl have nosuc: "\<not> ?P w (p # ps) (Suc i)" for i
      using suc [of i] by simp
    from p Inl have "fst (predict_batch E w (p # ps)) = Inl e \<longleftrightarrow> a = Inl e" by auto
    also from zero have "\<dots> \<longleftrightarrow> ?P w (p # ps) 0" by blast
    also from nosuc split have "\<dots> \<longleftrightarrow> (\<exists>i<length (p # ps). ?P w (p # ps) i)" by blast
    finally show ?thesis .
  next
    case (Inr r)
    obtain b w'' where b: "predict_batch E w' ps = (b, w'')" by fastforce
    from p Inr b have "fst (predict_batch E w (p # ps)) = Inl e \<longleftrightarrow> b = Inl e"
      by (cases b) auto
    also from Cons.IH [of w'] b have "\<dots> \<longleftrightarrow> (\<exists>i<length ps. ?P w' ps i)" by simp
    also from Inr suc have "\<dots> \<longleftrightarrow> (\<exists>i<length ps. ?P w (p # ps) (Suc i))" by blast
    also from Inr zero split have "\<dots> \<longleftrightarrow> (\<exists>i<length (p # ps). ?P w (p # ps) i)" by blast
    finally show ?thesis .
  qed
qed

text \<open>
  C8. \<open>predict_batch\<close> returns the list \<open>rs\<close> exactly when \<open>rs\<close> is as long as the
  list of paths and its \<open>i\<close>-th element is the result of \<open>predict\<close> on the \<open>i\<close>-th
  path, called after the calls on the paths before it. It raises \<open>e\<close> exactly when
  \<open>predict\<close> raises \<open>e\<close> on some path and returned a result on every path before
  that one: the first failure ends the batch and no list is returned.
\<close>

theorem predict_batch_elementwise:
  "(\<forall>rs. fst (predict_batch E w image_paths) = Inr rs \<longleftrightarrow>
      length rs = length image_paths \<and>
      (\<forall>i<length image_paths.
         fst (predict E (world_before E w image_paths i) (image_paths ! i)) = Inr (rs ! i))) \<and>
   (\<forall>e. fst (predict_batch E w image_paths) = Inl e \<longleftrightarrow>
      (\<exists>i<length image_paths.
         (\<forall>j<i. \<exists>r. fst (predict E (world_before E w image_paths j) (image_paths ! j)) = Inr r) \<and>
         fst (predict E (world_before E w image_paths i) (image_paths ! i)) = Inl e))"
  using predict_batch_results [of E w image_paths] predict_batch_failure [of E w image_paths]
  by blast

lemma demo_notes_prediction:
  "predict (demo_env tf) \<lparr>self = with_model, rng = g\<rparr> ''notes.txt''
     = (Inl UnidentifiedImageError, \<lparr>self = with_model, rng = g\<rparr>)"
proof -
  have "preprocess_image (demo_env tf) with_model ''notes.txt'' = Inl UnidentifiedImageError"
    by (simp add: preprocess_image_error demo_env_def demo_open_def)
  then have "real_prediction (demo_env tf) with_model 0 ''notes.txt'' = Inl UnidentifiedImageError"
    by (simp add: real_prediction_def)
  then show ?thesis
    by (simp add: predict_def with_model_def)
qed

theorem predict_batch_elementwise_witness:
  "fst (predict_batch (demo_env True) \<lparr>self = with_model, rng = []\<rparr>
      [''red.png'', ''notes.txt'', ''red.png'']) = Inl UnidentifiedImageError \<and>
   (\<exists>r1 r2. fst (predict_batch (demo_env True) \<lparr>self = demo_mode, rng = [4, 500]\<rparr>
      [''red.png'']) = Inr [r1] \<and> category_id r1 = 4 \<and>
      fst (predict_batch (demo_env True) \<lparr>self = with_model, rng = []\<rparr>
      [''red.png'', ''red.png'']) = Inr [r2, r2] \<and> category_id r2 = 1)"
proof -
  let ?E = "demo_env True"
  let ?w = "\<lparr>self = with_model, rng = []\<rparr> :: (nat, nat list) world"
  let ?d = "\<lparr>self = demo_mode, rng = [4, 500]\<rparr> :: (nat, nat list) world"
  let ?ps = "[''red.png'', ''notes.txt'', ''red.png'']"
  from demo_red_prediction [of True "[]"] obtain r2
    where r2: "predict ?E ?w ''red.png'' = (Inr r2, ?w)" "category_id r2 = 1"
    by blast
  from demo_random_prediction [of True "''red.png''"] obtain r1
    where r1: "predict ?E ?d ''red.png'' = (Inr r1, \<lparr>self = demo_mode, rng = []\<rparr>)"
      "category_id r1 = 4"
    by blast
  have n: "predict ?E ?w ''notes.txt'' = (Inl UnidentifiedImageError, ?w)"
    by (rule demo_notes_prediction)
  have w1: "world_before ?E ?w ?ps (Suc 0) = ?w"
    using r2(1) by (simp add: world_before_def)
  have "\<exists>i<length ?ps.
      (\<forall>j<i. \<exists>r. fst (predict ?E (world_before ?E ?w ?ps j) (?ps ! j)) = Inr r) \<and>
      fst (predict ?E (world_before ?E ?w ?ps i) (?ps ! i)) = Inl UnidentifiedImageError"
  proof (intro exI [of _ "Suc 0"] conjI allI impI)
    show "Suc 0 < length ?ps" by simp
    show "fst (predict ?E (world_before ?E ?w ?ps (Suc 0)) (?ps ! Suc 0)) = Inl UnidentifiedImageError"
      using n w1 by simp
    fix j :: nat assume "j < Suc 0"
    then have "j = 0" by simp
    with r2(1) show "\<exists>r. fst (predict ?E (world_before ?E ?w ?ps j) (?ps ! j)) = Inr r"
      by (simp add: world_before_0)
  qed
  with predict_batch_elementwise [of ?E ?w ?ps]
  have a: "fst (predict_batch ?E ?w ?ps) = Inl UnidentifiedImageError" by blast
  have "length [r1] = length [''red.png''] \<and>
      (\<forall>i<length [''red.png''].
         fst (predict ?E (world_before ?E ?d [''red.png''] i) ([''red.png''] ! i)) = Inr ([r1] ! i))"
    using r1(1) by (simp add: world_before_0)
  with predict_batch_elementwise [of ?E ?d "[''red.png'']"]
  have b: "fst (predict_batch ?E ?d [''red.png'']) = Inr [r1]" by blast
  have w2: "world_before ?E ?w [''red.png'', ''red.png''] (Suc 0) = ?w"
    using r2(1) by (simp add: world_before_def)
  have "length [r2, r2] = length [''red.png'', ''red.png''] \<and>
      (\<forall>i<length [''red.png'', ''red.png''].
         fst (predict ?E (world_before ?E ?w [''red.png'', ''red.png''] i)
           ([''red.png'', ''red.png''] ! i)) = Inr ([r2, r2] ! i))"
    using r2(1) w2 by (simp add: All_less_Suc2 world_before_0)
  with predict_batch_elementwise [of ?E ?w "[''red.png'', ''red.png'']"]
  have c: "fst (predict_batch ?E ?w [''red.png'', ''red.png'']) = Inr [r2, r2]" by blast
  from a b c r1(2) r2(2) show ?thesis by blast
qed

subsection \<open>Preprocessing\<close>

lemma shape_expand_dims0: "shape (expand_dims0 a) = 1 # shape a"
  by (simp add: expand_dims0_def)

lemma shape_np_divide: "shape (np_divide a d) = shape a"
proof (induction a d rule: np_divide.induct)
  case (1 v d)
  then show ?case by simp
next
  case (2 as d)
  then show ?case by (cases as) simp_all
qed

lemma elems_np_divide: "elems (np_divide a d) = map (\<lambda>v. v / d) (elems a)"
proof (induction a d rule: np_divide.induct)
  case (1 v d)
  then show ?case by simp
next
  case (2 as d)
  then have "map (\<lambda>a. elems (np_divide a d)) as = map (\<lambda>a. map (\<lambda>v. v / d) (elems a)) as"
    by (intro map_cong [OF refl])
  then have "concat (map (\<lambda>a. elems (np_divide a d)) as) =
      concat (map (\<lambda>a. map (\<lambda>v. v / d) (elems a)) as)"
    by (rule arg_cong)
  then show ?case by (simp add: map_concat comp_def)
qed

lemma shape_replicate: "0 < n \<Longrightarrow> shape (Arr (replicate n a)) = n # shape a"
  by (cases n) simp_all

lemma shape_np_pixel: "shape (np_pixel px) = (if length px = 1 then [] else [length px])"
proof (cases px)
  case Nil
  then show ?thesis by (simp add: np_pixel_def)
next
  case (Cons v vs)
  then show ?thesis by (cases vs) (simp_all add: np_pixel_def)
qed

lemma elems_np_pixel: "elems (np_pixel px) = map of_nat px"
proof (cases px)
  case Nil
  then show ?thesis by (simp add: np_pixel_def)
next
  case (Cons v vs)
  then show ?thesis by (cases vs) (simp_all add: np_pixel_def comp_def)
qed

lemma np_array_solid:
  "pixels im = solid w h px \<Longrightarrow>
   np_array im = Arr (replicate h (Arr (replicate w (np_pixel px))))"
  by (simp add: np_array_def solid_def)

lemma shape_np_array_solid:
  assumes "pixels im = solid w h px" and "0 < w" and "0 < h"
  shows "shape (np_array im) = [h, w] @ (if length px = 1 then [] else [length px])"
  using assms by (simp add: np_array_solid shape_replicate shape_np_pixel)

lemma set_elems_replicate: "0 < n \<Longrightarrow> set (elems (Arr (replicate n a))) = set (elems a)"
  by (cases n) auto

lemma set_elems_np_array_solid:
  assumes "pixels im = solid w h px" and "0 < w" and "0 < h"
  shows "set (elems (np_array im)) = of_nat ` set px"
  using assms by (simp add: np_array_solid set_elems_replicate elems_np_pixel)

lemma resize_solid_pixels:
  assumes "pixels im = solid w h px" and "0 < w" and "0 < h"
  shows "pixels (resize_solid im (n, n)) = solid n n px"
proof -
  from assms have "hd (hd (pixels im)) = px" by (simp add: solid_def hd_replicate)
  then show ?thesis by (simp add: resize_solid_def)
qed

text \<open>
  An image of one colour, resized as such an image is: the array has the shape
  \<open>[1, img_size, img_size]\<close> followed by the number of bands when there are several,
  and only mode \<open>RGBA\<close> loses a band.
\<close>

lemma preprocess_image_solid:
  assumes "Image_open E p = Inr (solid_image m k px)"
    and "Image_resize E (if m = ''RGBA'' then convert_RGB (solid_image m k px) else solid_image m k px)
           (img_size s, img_size s) =
         resize_solid (if m = ''RGBA'' then convert_RGB (solid_image m k px) else solid_image m k px)
           (img_size s, img_size s)"
    and "0 < k" and "0 < img_size s"
  shows "\<exists>a. preprocess_image E s p = Inr a \<and>
    shape a = [1, img_size s, img_size s] @
      (let bands = (if m = ''RGBA'' then min (length px) 3 else length px)
       in if bands = 1 then [] else [bands]) \<and>
    set (elems a) = (\<lambda>v. of_nat v / 255) ` set (if m = ''RGBA'' then take 3 px else px)"
proof -
  let ?px = "if m = ''RGBA'' then take 3 px else px"
  let ?c = "if m = ''RGBA'' then convert_RGB (solid_image m k px) else solid_image m k px"
  let ?r = "resize_solid ?c (img_size s, img_size s)"
  have c: "pixels ?c = solid k k ?px"
    by (simp add: convert_RGB_def solid_image_def solid_def)
  from resize_solid_pixels [OF c assms(3) assms(3)]
  have r: "pixels ?r = solid (img_size s) (img_size s) ?px" .
  have md: "mode (solid_image m k px) = m" by (simp add: solid_image_def)
  have "preprocess_image E s p =
      Inr (expand_dims0 (np_divide (np_array (Image_resize E ?c (img_size s, img_size s))) 255))"
    using assms(1) md by (simp add: preprocess_image_def Let_def)
  with assms(2)
  have p: "preprocess_image E s p = Inr (expand_dims0 (np_divide (np_array ?r) 255))"
    by (simp only:)
  have "shape (expand_dims0 (np_divide (np_array ?r) 255)) =
      [1, img_size s, img_size s] @ (if length ?px = 1 then [] else [length ?px])"
    using shape_np_array_solid [OF r assms(4) assms(4)]
    by (simp add: shape_expand_dims0 shape_np_divide)
  moreover have "set (elems (expand_dims0 (np_divide (np_array ?r) 255))) =
      (\<lambda>v. of_nat v / 255) ` set ?px"
    using set_elems_np_array_solid [OF r assms(4) assms(4)]
    by (simp add: expand_dims0_def elems_np_divide image_image)
  ultimately show ?thesis using p by (simp add: Let_def)
qed

text \<open>
  For the modes \<open>RGB\<close> and \<open>RGBA\<close> with 8-bit bands the array has three channels
  and values in \<open>[0, 1]\<close>.
\<close>

lemma preprocess_image_three_bands:
  assumes "Image_open E p = Inr (solid_image m k px)"
    and "Image_resize E (if m = ''RGBA'' then convert_RGB (solid_image m k px) else solid_image m k px)
           (img_size s, img_size s) =
         resize_solid (if m = ''RGBA'' then convert_RGB (solid_image m k px) else solid_image m k px)
           (img_size s, img_size s)"
    and "0 < k" and "0 < img_size s"
    and "m = ''RGB'' \<and> length px = 3 \<or> m = ''RGBA'' \<and> length px = 4"
    and "\<forall>v \<in> set px. v \<le> 255"
  shows "\<exists>a. preprocess_image E s p = Inr a \<and>
    shape a = [1, img_size s, img_size s, 3] \<and> (\<forall>v \<in> set (elems a). 0 \<le> v \<and> v \<le> 1)"
proof -
  from preprocess_image_solid [OF assms(1-4)] obtain a
    where a: "preprocess_image E s p = Inr a"
      and sh: "shape a = [1, img_size s, img_size s] @
        (let bands = (if m = ''RGBA'' then min (length px) 3 else length px)
         in if bands = 1 then [] else [bands])"
      and el: "set (elems a) = (\<lambda>v. of_nat v / 255) ` set (if m = ''RGBA'' then take 3 px else px)"
    by blast
  from assms(5) sh have "shape a = [1, img_size s, img_size s, 3]" by auto
  moreover have "0 \<le> v \<and> v \<le> 1" if "v \<in> set (elems a)" for v
  proof -
    from that el obtain n where n: "n \<in> set px" "v = of_nat n / 255"
      by (auto split: if_splits dest: in_set_takeD)
    with assms(6) have "n \<le> 255" by blast
    then have "(of_nat n :: rat) \<le> 255"
      by (metis of_nat_le_iff of_nat_numeral)
    with n(2) show ?thesis by simp
  qed
  ultimately show ?thesis using a by blast
qed

text \<open>
  C5, on images of one colour in other modes. A grey square with an alpha band (mode
  \<open>LA\<close>) is not converted: the array has the shape \<open>[1, 224, 224, 2]\<close> and keeps
  the alpha value. A grey square without one (mode \<open>L\<close>) gives the shape
  \<open>[1, 224, 224]\<close>. Neither is \<open>[1, 224, 224, 3]\<close>.
\<close>

theorem preprocess_image_other_modes:
  "(\<exists>a. preprocess_image (demo_env True) with_model ''shade.png'' = Inr a \<and>
        shape a = [1, 224, 224, 2] \<and> set (elems a) = {128 / 255, 1}) \<and>
   (\<exists>a. preprocess_image (demo_env True) with_model ''grey.png'' = Inr a \<and>
        shape a = [1, 224, 224])"
proof -
  let ?E = "demo_env True"
  have o: "Image_open ?E ''shade.png'' = Inr (solid_image ''LA'' 2 [128, 255])"
    "Image_open ?E ''grey.png'' = Inr (solid_image ''L'' 2 [128])"
    by (simp_all add: demo_env_def demo_open_def)
  have r: "Image_resize ?E im sz = resize_solid im sz" for im sz
    by (simp add: demo_env_def)
  have s: "img_size with_model = 224" by (simp add: with_model_def)
  from preprocess_image_solid [OF o(1) r, of with_model]
  have "\<exists>a. preprocess_image ?E with_model ''shade.png'' = Inr a \<and>
        shape a = [1, 224, 224, 2] \<and> set (elems a) = {128 / 255, 1}"
    by (simp add: s numeral_2_eq_2)
  moreover from preprocess_image_solid [OF o(2) r, of with_model]
  have "\<exists>a. preprocess_image ?E with_model ''grey.png'' = Inr a \<and> shape a = [1, 224, 224]"
    by (auto simp: s)
  ultimately show ?thesis by blast
qed

lemma preprocess_image_demo_rgba:
  "\<exists>a. preprocess_image (demo_env True) with_model ''glass.png'' = Inr a \<and>
        shape a = [1, 224, 224, 3] \<and> (\<forall>v \<in> set (elems a). 0 \<le> v \<and> v \<le> 1)"
proof -
  let ?E = "demo_env True"
  have o: "Image_open ?E ''glass.png'' = Inr (solid_image ''RGBA'' 3 [0, 128, 255, 64])"
    by (simp add: demo_env_def demo_open_def)
  have r: "Image_resize ?E im sz = resize_solid im sz" for im sz
    by (simp add: demo_env_def)
  from preprocess_image_three_bands [OF o r, of with_model]
  show ?thesis by (simp add: with_model_def)
qed

end
